theory Spec2Isabelle
  imports Main
begin

section \<open>OpenAPI generation from an Express router tree\<close>

text \<open>
  A shallow embedding of \<^verbatim>\<open>src/generator.ts\<close>, \<^verbatim>\<open>src/utils.ts\<close> and
  \<^verbatim>\<open>src/errors.ts\<close>.

  Modelling decisions.
  \<^item> Handlers and routers are JavaScript functions compared by reference; a handle is
    modelled by a numeric identity \<open>hid\<close>, and carries \<open>hstack = Some layers\<close> exactly when
    the function object has a \<^verbatim>\<open>stack\<close> property (the test of \<^verbatim>\<open>isRouter\<close>).
  \<^item> The router tree is a finite datatype, so a router mounted below itself is outside
    the model.
  \<^item> \<^verbatim>\<open>PathToRegexp.parse\<close> belongs to the library path-to-regexp, which is not part of
    the repository. It is a parameter \<open>parse\<close> of every function that reaches it; \<open>None\<close>
    stands for the \<^verbatim>\<open>TypeError\<close> the library throws on a malformed path.
  \<^item> Exceptions are values: an outcome is either \<open>Done g\<close> or \<open>Thrown e g\<close>, where \<open>g\<close> is the
    generator as the exception leaves it (the code mutates the document in place and
    never rolls back).
  \<^item> The \<^verbatim>\<open>paths\<close> object and each path item are finite maps of own properties; the
    members every JavaScript object inherits from \<^verbatim>\<open>Object.prototype\<close> are not
    modelled. Strings are byte strings; the character class \<^verbatim>\<open>\w\<close> is
    \<^verbatim>\<open>[A-Za-z0-9_]\<close>.
\<close>

subsection \<open>Data model\<close>

text \<open>Tokens of path-to-regexp: \<^verbatim>\<open>Text | Parameter | Wildcard | Group\<close>.\<close>

datatype token =
    Text string
  | Param string
  | Wildcard string
  | Group "token list"

type_synonym parser = "string \<Rightarrow> token list option"

text \<open>\<^verbatim>\<open>Keys\<close> of \<^verbatim>\<open>src/types.ts\<close>.\<close>

datatype key_type = KParam | KWildcard

record keys =
  key_name :: string
  key_type :: key_type
  key_required :: bool

text \<open>The part of the OpenAPI object model the generator reads or writes.\<close>

record schema_object =
  schema_type :: "string option"
  schema_format :: "string option"

record parameter_object =
  param_name :: string
  param_in :: string
  param_required :: "bool option"
  param_schema :: "schema_object option"
  param_description :: "string option"

text \<open>An entry of \<^verbatim>\<open>operation.parameters\<close> is a parameter object or a \<^verbatim>\<open>$ref\<close>.\<close>

datatype parameter_entry = ParameterObject parameter_object | ReferenceObject string

record response_object =
  response_description :: string

record operation_object =
  op_summary :: "string option"
  op_description :: "string option"
  op_parameters :: "parameter_entry list option"
  op_responses :: "(string \<times> response_object) list"

type_synonym path_item = "string \<rightharpoonup> operation_object"

record info_object =
  info_title :: string
  info_version :: string

record document =
  doc_openapi :: string
  doc_info :: info_object
  doc_servers :: "string list option"
  doc_paths :: "string \<rightharpoonup> path_item"

text \<open>
  The argument of the constructor. TypeScript demands \<^verbatim>\<open>openapi\<close>, \<^verbatim>\<open>info\<close> and
  \<^verbatim>\<open>paths\<close>; \<^verbatim>\<open>Object.assign(minDoc, baseDoc)\<close> supplies a default for whichever
  is absent at run time. A server is represented by its \<^verbatim>\<open>url\<close>.
\<close>

record base_document =
  base_openapi :: "string option"
  base_info :: "info_object option"
  base_servers :: "string list option"
  base_paths :: "(string \<rightharpoonup> path_item) option"

text \<open>Express layers (\<^verbatim>\<open>Layer = Router['stack'][number]\<close>) and routes.\<close>

datatype route_path = Single string | Multiple "string list"

datatype handle = Handle (hid: nat) (hstack: "layer list option")
  and layer = Layer (layer_name: string) (layer_handle: handle)
                    (layer_method: "string option") (layer_route: "route option")
  and route = Route (route_path: route_path) (route_stack: "layer list")

text \<open>\<^verbatim>\<open>RouterInfo\<close> and \<^verbatim>\<open>PathInfo\<close> of \<^verbatim>\<open>src/types.ts\<close>, and the errors.\<close>

datatype router_info = RouterInfo (info_name: string) (info_path: string) (stackSize: nat)

datatype path_info = PathInfo (attemptedPath: string) (routerName: string)

datatype error =
    RouterRegistrationError router_info
  | WildcardPathError path_info
  | TypeError

text \<open>The private fields of \<^verbatim>\<open>OpenAPIGenerator\<close>.\<close>

record generator =
  doc :: document
  basePath :: string
  schemaMap :: "nat \<rightharpoonup> operation_object"
  routerMap :: "nat \<rightharpoonup> string"

datatype outcome = Done generator | Thrown error generator

subsection \<open>String primitives of JavaScript\<close>

text \<open>
  \<^verbatim>\<open>toLowerCase\<close> on byte strings: the letters \<^verbatim>\<open>A\<close> to \<^verbatim>\<open>Z\<close> are mapped, every other byte is
  kept. JavaScript also lowers letters outside ASCII, but no string that holds such a
  letter lowers to one of the eight method names, so the test
  \<^verbatim>\<open>isHTTPMethod(method.toLowerCase())\<close> and the method under which an operation is stored
  come out the same.
\<close>

definition lower_char :: "char \<Rightarrow> char" where
  "lower_char c =
     (case map_of (zip ''ABCDEFGHIJKLMNOPQRSTUVWXYZ'' ''abcdefghijklmnopqrstuvwxyz'') c of
        None \<Rightarrow> c
      | Some d \<Rightarrow> d)"

definition toLowerCase :: "string \<Rightarrow> string" where
  "toLowerCase s = map lower_char s"

definition startsWith :: "string \<Rightarrow> string \<Rightarrow> bool" where
  "startsWith s p = (take (length p) s = p)"

text \<open>
  \<^verbatim>\<open>s.replace(pat, rep)\<close> with a string pattern: the first occurrence of \<open>pat\<close> is replaced.
  (The only replacement text the generator passes is the empty string, so the
  \<^verbatim>\<open>$\<close>-patterns of replacement texts do not arise.)
\<close>

fun replace_first :: "string \<Rightarrow> string \<Rightarrow> string \<Rightarrow> string" where
  "replace_first pat rep [] = (if pat = [] then rep else [])"
| "replace_first pat rep (c # cs) =
     (if startsWith (c # cs) pat then rep @ drop (length pat) (c # cs)
      else c # replace_first pat rep cs)"

definition isWordChar :: "char \<Rightarrow> bool" where
  "isWordChar c =
     (c \<in> set ''abcdefghijklmnopqrstuvwxyzABCDEFGHIJKLMNOPQRSTUVWXYZ0123456789_'')"

text \<open>
  A match of \<^verbatim>\<open>/\{:(\w+)\}/\<close> at the start of the string: the captured name and the text
  after the match. \<^verbatim>\<open>\w+\<close> is greedy, and giving characters back cannot help, since the
  character after a shorter name is a word character and not the closing brace.
\<close>

fun match_group_marker :: "string \<Rightarrow> (string \<times> string) option" where
  "match_group_marker (a # b # t) =
     (if a = CHR ''{'' \<and> b = CHR '':'' \<and> takeWhile isWordChar t \<noteq> [] then
        (case dropWhile isWordChar t of
           [] \<Rightarrow> None
         | c # rest \<Rightarrow> if c = CHR ''}'' then Some (takeWhile isWordChar t, rest) else None)
      else None)"
| "match_group_marker _ = None"

text \<open>A match of \<^verbatim>\<open>/:(\w+)/\<close> at the start of the string.\<close>

fun match_param_marker :: "string \<Rightarrow> (string \<times> string) option" where
  "match_param_marker (a # t) =
     (if a = CHR '':'' \<and> takeWhile isWordChar t \<noteq> [] then
        Some (takeWhile isWordChar t, dropWhile isWordChar t)
      else None)"
| "match_param_marker [] = None"

lemma match_group_marker_shorter:
  "match_group_marker s = Some (nm, rest) \<Longrightarrow> length rest < length s"
proof (cases s rule: match_group_marker.cases)
  case (1 a b t)
  assume m: "match_group_marker s = Some (nm, rest)"
  have "length (dropWhile isWordChar t) \<le> length t"
    by (rule length_dropWhile_le)
  with m 1 show ?thesis
    by (auto split: if_splits list.splits)
qed simp_all

lemma match_param_marker_shorter:
  "match_param_marker s = Some (nm, rest) \<Longrightarrow> length rest < length s"
proof (cases s)
  case (Cons a t)
  assume m: "match_param_marker s = Some (nm, rest)"
  have "length (dropWhile isWordChar t) \<le> length t"
    by (rule length_dropWhile_le)
  with m Cons show ?thesis
    by (auto split: if_splits)
qed simp

text \<open>
  \<^verbatim>\<open>path.replace(/\{:(\w+)\}/g, ':$1')\<close>: scanning from the left, every match is replaced
  by a colon and the captured name and the scan goes on after the match; where there
  is no match the character is kept.
\<close>

function unwrap_group_markers :: "string \<Rightarrow> string" where
  "unwrap_group_markers [] = []"
| "unwrap_group_markers (c # cs) =
     (case match_group_marker (c # cs) of
        Some (nm, rest) \<Rightarrow> CHR '':'' # nm @ unwrap_group_markers rest
      | None \<Rightarrow> c # unwrap_group_markers cs)"
  by pat_completeness auto
termination
  by (relation "measure length")
    (auto simp del: match_group_marker.simps dest: match_group_marker_shorter)

text \<open>\<^verbatim>\<open>path.replace(/:(\w+)/g, '{$1}')\<close>.\<close>

function brace_param_markers :: "string \<Rightarrow> string" where
  "brace_param_markers [] = []"
| "brace_param_markers (c # cs) =
     (case match_param_marker (c # cs) of
        Some (nm, rest) \<Rightarrow> CHR ''{'' # nm @ CHR ''}'' # brace_param_markers rest
      | None \<Rightarrow> c # brace_param_markers cs)"
  by pat_completeness auto
termination
  by (relation "measure length")
    (auto simp del: match_param_marker.simps dest: match_param_marker_shorter)

subsection \<open>\<^verbatim>\<open>src/utils.ts\<close>\<close>

definition isRouter :: "handle \<Rightarrow> bool" where
  "isRouter h = (hstack h \<noteq> None)"

definition isParameterObject :: "parameter_entry \<Rightarrow> bool" where
  "isParameterObject p = (case p of ParameterObject _ \<Rightarrow> True | ReferenceObject _ \<Rightarrow> False)"

definition isHTTPMethod :: "string \<Rightarrow> bool" where
  "isHTTPMethod m =
     (m \<in> set [''get'', ''post'', ''put'', ''patch'', ''delete'', ''options'', ''head'', ''trace''])"

text \<open>
  \<^verbatim>\<open>processTokens\<close>: the \<^verbatim>\<open>forEach\<close> pushes onto the one array \<open>parameters\<close>; what
  the callback returns is dropped by \<^verbatim>\<open>forEach\<close>.
\<close>

fun processTokens :: "token list \<Rightarrow> bool \<Rightarrow> keys list \<Rightarrow> keys list" where
  "processTokens [] isInsideGroup parameters = parameters"
| "processTokens (Param n # tokens) isInsideGroup parameters =
     processTokens tokens isInsideGroup
       (parameters @ [\<lparr>key_name = n, key_type = KParam, key_required = \<not> isInsideGroup\<rparr>])"
| "processTokens (Wildcard n # tokens) isInsideGroup parameters =
     processTokens tokens isInsideGroup
       (parameters @ [\<lparr>key_name = n, key_type = KWildcard, key_required = \<not> isInsideGroup\<rparr>])"
| "processTokens (Group inner # tokens) isInsideGroup parameters =
     processTokens tokens isInsideGroup (processTokens inner True parameters)"
| "processTokens (Text v # tokens) isInsideGroup parameters =
     processTokens tokens isInsideGroup parameters"

definition parseKeys :: "token list \<Rightarrow> keys list" where
  "parseKeys tokens = processTokens tokens False []"

subsection \<open>\<^verbatim>\<open>src/generator.ts\<close>: construction and registration\<close>

text \<open>
  \<^verbatim>\<open>baseDoc.servers?.[0].url ?? '/'\<close>: without \<^verbatim>\<open>servers\<close> the base path is \<^verbatim>\<open>/\<close>; with
  an empty \<^verbatim>\<open>servers\<close> array the read of \<^verbatim>\<open>url\<close> from \<^verbatim>\<open>undefined\<close> throws.
\<close>

definition constructor :: "base_document \<Rightarrow> error + generator" where
  "constructor baseDoc =
     (let d = \<lparr>doc_openapi = (case base_openapi baseDoc of None \<Rightarrow> ''3.0.0'' | Some v \<Rightarrow> v),
               doc_info = (case base_info baseDoc of
                             None \<Rightarrow> \<lparr>info_title = [], info_version = ''0.0.0''\<rparr>
                           | Some i \<Rightarrow> i),
               doc_servers = base_servers baseDoc,
               doc_paths = (case base_paths baseDoc of None \<Rightarrow> Map.empty | Some ps \<Rightarrow> ps)\<rparr>
      in case base_servers baseDoc of
           None \<Rightarrow>
             Inr \<lparr>doc = d, basePath = ''/'', schemaMap = Map.empty, routerMap = Map.empty\<rparr>
         | Some [] \<Rightarrow> Inl TypeError
         | Some (url # _) \<Rightarrow>
             Inr \<lparr>doc = d, basePath = url, schemaMap = Map.empty, routerMap = Map.empty\<rparr>)"

definition addSchema :: "handle \<Rightarrow> operation_object \<Rightarrow> generator \<Rightarrow> generator" where
  "addSchema handler schema g = g\<lparr>schemaMap := (schemaMap g)(hid handler \<mapsto> schema)\<rparr>"

definition registerRouter :: "handle \<Rightarrow> string \<Rightarrow> generator \<Rightarrow> generator" where
  "registerRouter router path g = g\<lparr>routerMap := (routerMap g)(hid router \<mapsto> path)\<rparr>"

definition getDocument :: "generator \<Rightarrow> document" where
  "getDocument g = doc g"

subsection \<open>\<^verbatim>\<open>getParams\<close>\<close>

text \<open>Lines 33 to 35: the base path is cut off the front of the path, once.\<close>

definition stripBasePath :: "string \<Rightarrow> string \<Rightarrow> string" where
  "stripBasePath base path =
     (if base \<noteq> [] \<and> startsWith path base then replace_first base [] path else path)"

text \<open>
  Lines 54 to 73: the parameter object of one key. \<^verbatim>\<open>Object.assign(target, source)\<close>
  copies every property the source has onto the target.
\<close>

definition defaultParameter :: "keys \<Rightarrow> parameter_object" where
  "defaultParameter k =
     \<lparr>param_name = key_name k, param_in = ''path'',
      param_required = Some (key_required k),
      param_schema = Some \<lparr>schema_type = Some ''string'', schema_format = None\<rparr>,
      param_description = None\<rparr>"

definition assignParameter :: "parameter_object \<Rightarrow> parameter_object \<Rightarrow> parameter_object" where
  "assignParameter target source =
     \<lparr>param_name = param_name source, param_in = param_in source,
      param_required =
        (case param_required source of None \<Rightarrow> param_required target | Some r \<Rightarrow> Some r),
      param_schema =
        (case param_schema source of None \<Rightarrow> param_schema target | Some sc \<Rightarrow> Some sc),
      param_description =
        (case param_description source of
           None \<Rightarrow> param_description target
         | Some d \<Rightarrow> Some d)\<rparr>"

text \<open>The callback of \<^verbatim>\<open>schema.parameters.find\<close>, lines 57 to 62.\<close>

definition declaresKey :: "keys \<Rightarrow> parameter_entry \<Rightarrow> bool" where
  "declaresKey k p =
     (if \<not> isParameterObject p then False
      else
        (case p of
           ReferenceObject _ \<Rightarrow> False
         | ParameterObject q \<Rightarrow>
             if param_name q \<noteq> key_name k then False
             else if param_in q \<noteq> ''path'' then False
             else True))"

definition declaredParameter :: "operation_object \<Rightarrow> keys \<Rightarrow> parameter_entry option" where
  "declaredParameter schema k =
     (case op_parameters schema of None \<Rightarrow> None | Some ps \<Rightarrow> find (declaresKey k) ps)"

definition keyParameter :: "operation_object \<Rightarrow> keys \<Rightarrow> parameter_entry" where
  "keyParameter schema k =
     (case declaredParameter schema k of
        Some (ParameterObject q) \<Rightarrow> ParameterObject (assignParameter (defaultParameter k) q)
      | _ \<Rightarrow> ParameterObject (defaultParameter k))"

text \<open>Lines 78 and 79: the two rewrites of the path, in this order.\<close>

definition openAPIPath :: "string \<Rightarrow> string" where
  "openAPIPath path = brace_param_markers (unwrap_group_markers path)"

text \<open>Lines 81 to 83: \<^verbatim>\<open>paths[path][method] = operation\<close>, creating the path item if needed.\<close>

definition setOperation ::
  "string \<Rightarrow> string \<Rightarrow> operation_object \<Rightarrow> document \<Rightarrow> document" where
  "setOperation path m operation d =
     (let pathObj = (case doc_paths d path of None \<Rightarrow> Map.empty | Some po \<Rightarrow> po)
      in d\<lparr>doc_paths := (doc_paths d)(path \<mapsto> pathObj(m \<mapsto> operation))\<rparr>)"

definition getParams :: "parser \<Rightarrow> string \<Rightarrow> layer \<Rightarrow> generator \<Rightarrow> outcome" where
  "getParams parse path0 layer g =
     (let path = stripBasePath (basePath g) path0 in
      case schemaMap g (hid (layer_handle layer)) of
        None \<Rightarrow> Done g
      | Some schema \<Rightarrow>
          (case layer_method layer of
             None \<Rightarrow> Thrown TypeError g
           | Some m \<Rightarrow>
               if \<not> isHTTPMethod (toLowerCase m) then Done g
               else
                 (case parse path of
                    None \<Rightarrow> Thrown TypeError g
                  | Some tokenData \<Rightarrow>
                      if find (\<lambda>k. key_type k = KWildcard) (parseKeys tokenData) \<noteq> None
                      then Thrown (WildcardPathError (PathInfo path (layer_name layer))) g
                      else
                        (let operation =
                               schema\<lparr>op_parameters :=
                                 Some (map (keyParameter schema) (parseKeys tokenData))\<rparr>
                         in Done (g\<lparr>doc := setOperation (openAPIPath path) (toLowerCase m)
                                              operation (doc g),
                                     schemaMap :=
                                       (schemaMap g)(hid (layer_handle layer) \<mapsto> operation)\<rparr>)))))"

subsection \<open>\<^verbatim>\<open>recurseStack\<close> and \<^verbatim>\<open>initializeDoc\<close>\<close>

text \<open>\<^verbatim>\<open>xs.forEach(f)\<close> for a callback that may throw: the first exception ends the loop.\<close>

fun forEach :: "'a list \<Rightarrow> ('a \<Rightarrow> generator \<Rightarrow> outcome) \<Rightarrow> generator \<Rightarrow> outcome" where
  "forEach [] f g = Done g"
| "forEach (x # xs) f g =
     (case f x g of Done g' \<Rightarrow> forEach xs f g' | Thrown e g' \<Rightarrow> Thrown e g')"

lemma forEach_cong [fundef_cong]:
  "xs = ys \<Longrightarrow> g = g' \<Longrightarrow> (\<And>x s. x \<in> set ys \<Longrightarrow> f x s = f' x s)
     \<Longrightarrow> forEach xs f g = forEach ys f' g'"
proof (induction xs arbitrary: ys g g')
  case Nil
  then show ?case by simp
next
  case (Cons x xs)
  then show ?case
    by (cases ys) (auto split: outcome.splits)
qed

text \<open>The \<^verbatim>\<open>RouterInfo\<close> built by the constructor of \<^verbatim>\<open>RouterRegistrationError\<close>.\<close>

definition routerInfo :: "layer \<Rightarrow> string \<Rightarrow> router_info" where
  "routerInfo layer path =
     RouterInfo (layer_name layer) path
       (case hstack (layer_handle layer) of None \<Rightarrow> 0 | Some st \<Rightarrow> length st)"

lemma size_hstack_member:
  "hstack h = Some st \<Longrightarrow> x \<in> set st \<Longrightarrow> size x < size h"
proof -
  assume st: "hstack h = Some st" and x: "x \<in> set st"
  from x have "size x \<le> size_list size st"
    by (rule size_list_estimation') simp
  with st show ?thesis
    by (cases h) simp
qed

lemma size_route_stack_member:
  "x \<in> set (route_stack rt) \<Longrightarrow> size x < size rt"
  by (cases rt) (auto simp: less_Suc_eq_le intro: size_list_estimation')

lemma find_Some_member:
  "find P xs = Some x \<Longrightarrow> x \<in> set xs"
  by (auto simp: find_Some_iff)

text \<open>
  \<^verbatim>\<open>recurseStack\<close>, lines 87 to 110. The sub-router branch needs the layer to be named
  \<^verbatim>\<open>router\<close> and its handle to have a stack; \<^verbatim>\<open>!routerPath\<close> holds for a router that
  was never registered and for one registered with the empty path.
\<close>

function recurseStack :: "parser \<Rightarrow> string \<Rightarrow> layer \<Rightarrow> generator \<Rightarrow> outcome" where
  "recurseStack parse path (Layer nm h m r) g =
     (case getParams parse path (Layer nm h m r) g of
        Thrown e g' \<Rightarrow> Thrown e g'
      | Done g1 \<Rightarrow>
          (case (if nm = ''router'' \<and> isRouter h then
                   (case routerMap g1 (hid h) of
                      None \<Rightarrow>
                        Thrown (RouterRegistrationError (routerInfo (Layer nm h m r) path)) g1
                    | Some routerPath \<Rightarrow>
                        if routerPath = [] then
                          Thrown (RouterRegistrationError (routerInfo (Layer nm h m r) path)) g1
                        else
                          forEach (case hstack h of None \<Rightarrow> [] | Some st \<Rightarrow> st)
                            (\<lambda>routeLayer. recurseStack parse (path @ routerPath) routeLayer) g1)
                 else Done g1) of
             Thrown e g' \<Rightarrow> Thrown e g'
           | Done g2 \<Rightarrow>
               (case r of
                  None \<Rightarrow> Done g2
                | Some rt \<Rightarrow>
                    (case route_path rt of
                       Multiple ps \<Rightarrow>
                         (case find (\<lambda>l. schemaMap g2 (hid (layer_handle l)) \<noteq> None)
                                 (route_stack rt) of
                            None \<Rightarrow> Done g2
                          | Some schemaLayer \<Rightarrow>
                              forEach ps (\<lambda>p. recurseStack parse (path @ p) schemaLayer) g2)
                     | Single p \<Rightarrow>
                         forEach (route_stack rt) (\<lambda>l. recurseStack parse (path @ p) l) g2))))"
  by pat_completeness auto

termination
proof (relation "measure (\<lambda>(parse, path, l, g). size l)", goal_cases)
  case 1
  show ?case by simp
next
  case (2 parse path nm h m r g x1 x2 x s)
  then show ?case
    by (cases "hstack h") (auto dest: size_hstack_member)
next
  case (3 parse path nm h m r g x1 x1a x2 x1b x s)
  then show ?case
    by (auto dest: size_route_stack_member)
next
  case (4 parse path nm h m r g x1 x1a x2 x2a x2b x s)
  then have "x2b \<in> set (route_stack x2)"
    by (auto dest: find_Some_member)
  with 4 show ?case
    by (auto dest: size_route_stack_member)
qed

text \<open>
  The two halves of the body of \<^verbatim>\<open>recurseStack\<close> after the call of \<^verbatim>\<open>getParams\<close>, named
  so that statements can mention them: lines 91 to 101 and lines 102 to 109.
\<close>

definition mountStep :: "parser \<Rightarrow> string \<Rightarrow> layer \<Rightarrow> generator \<Rightarrow> outcome" where
  "mountStep parse path layer g =
     (if layer_name layer = ''router'' \<and> isRouter (layer_handle layer) then
        (case routerMap g (hid (layer_handle layer)) of
           None \<Rightarrow> Thrown (RouterRegistrationError (routerInfo layer path)) g
         | Some routerPath \<Rightarrow>
             if routerPath = [] then Thrown (RouterRegistrationError (routerInfo layer path)) g
             else forEach (case hstack (layer_handle layer) of None \<Rightarrow> [] | Some st \<Rightarrow> st)
                    (\<lambda>routeLayer. recurseStack parse (path @ routerPath) routeLayer) g)
      else Done g)"

definition routeStep :: "parser \<Rightarrow> string \<Rightarrow> route option \<Rightarrow> generator \<Rightarrow> outcome" where
  "routeStep parse path r g =
     (case r of
        None \<Rightarrow> Done g
      | Some rt \<Rightarrow>
          (case route_path rt of
             Multiple ps \<Rightarrow>
               (case find (\<lambda>l. schemaMap g (hid (layer_handle l)) \<noteq> None) (route_stack rt) of
                  None \<Rightarrow> Done g
                | Some schemaLayer \<Rightarrow>
                    forEach ps (\<lambda>p. recurseStack parse (path @ p) schemaLayer) g)
           | Single p \<Rightarrow> forEach (route_stack rt) (\<lambda>l. recurseStack parse (path @ p) l) g))"

text \<open>
  \<^verbatim>\<open>initializeDoc\<close>, lines 112 to 119. The root is a router, so it has a stack; the loop
  over a missing stack would throw.
\<close>

definition initializeDoc :: "parser \<Rightarrow> handle option \<Rightarrow> generator \<Rightarrow> outcome" where
  "initializeDoc parse router g =
     (case router of
        None \<Rightarrow> Done g
      | Some rt \<Rightarrow>
          (case hstack rt of
             None \<Rightarrow> Thrown TypeError g
           | Some st \<Rightarrow> forEach st (\<lambda>layer. recurseStack parse [] layer) g))"

text \<open>The generator an outcome leaves behind, and the document \<^verbatim>\<open>initializeDoc\<close> returns.\<close>

fun generatorOf :: "outcome \<Rightarrow> generator" where
  "generatorOf (Done g) = g"
| "generatorOf (Thrown e g) = g"

fun thrownError :: "outcome \<Rightarrow> error option" where
  "thrownError (Done g) = None"
| "thrownError (Thrown e g) = Some e"

subsection \<open>Reading the document\<close>

text \<open>\<^verbatim>\<open>doc.paths[path]?.[method]\<close>.\<close>

definition operationAt :: "document \<Rightarrow> string \<Rightarrow> string \<Rightarrow> operation_object option" where
  "operationAt d path m = (case doc_paths d path of None \<Rightarrow> None | Some item \<Rightarrow> item m)"

section \<open>Notions of the specification\<close>

subsection \<open>Nesting depth of the tokens of a path\<close>

text \<open>
  Every parameter or wildcard token of a token list, in the order of the path, with
  the number of groups around it: a token outside any group has depth \<open>0\<close>.
\<close>

fun tokenDepths :: "nat \<Rightarrow> token list \<Rightarrow> (string \<times> key_type \<times> nat) list" where
  "tokenDepths d [] = []"
| "tokenDepths d (Param n # tokens) = (n, KParam, d) # tokenDepths d tokens"
| "tokenDepths d (Wildcard n # tokens) = (n, KWildcard, d) # tokenDepths d tokens"
| "tokenDepths d (Group inner # tokens) = tokenDepths (Suc d) inner @ tokenDepths d tokens"
| "tokenDepths d (Text v # tokens) = tokenDepths d tokens"

text \<open>The key the specification asks for: required exactly when outside every group.\<close>

definition depthKey :: "string \<times> key_type \<times> nat \<Rightarrow> keys" where
  "depthKey e =
     (case e of (n, t, d) \<Rightarrow> \<lparr>key_name = n, key_type = t, key_required = (d = 0)\<rparr>)"

text \<open>
  The parameter object the generator makes up for a token when the metadata declares
  nothing for it: required exactly at depth \<open>0\<close>.
\<close>

definition synthesized :: "string \<times> key_type \<times> nat \<Rightarrow> parameter_entry" where
  "synthesized e =
     (case e of (n, t, d) \<Rightarrow>
        ParameterObject
          \<lparr>param_name = n, param_in = ''path'', param_required = Some (d = 0),
           param_schema = Some \<lparr>schema_type = Some ''string'', schema_format = None\<rparr>,
           param_description = None\<rparr>)"

text \<open>
  The parameter object the generator records for a token when the metadata declares the
  path parameter \<open>q\<close> under the token's name: the attributes of \<open>q\<close>, with the defaults
  for \<^verbatim>\<open>required\<close> (true exactly at depth \<open>0\<close>) and \<^verbatim>\<open>schema\<close> where \<open>q\<close> has none.
\<close>

definition merged :: "string \<times> key_type \<times> nat \<Rightarrow> parameter_object \<Rightarrow> parameter_entry" where
  "merged e q =
     (case e of (n, t, d) \<Rightarrow>
        ParameterObject
          \<lparr>param_name = param_name q, param_in = param_in q,
           param_required = Some (case param_required q of None \<Rightarrow> d = 0 | Some r \<Rightarrow> r),
           param_schema =
             Some (case param_schema q of
                     None \<Rightarrow> \<lparr>schema_type = Some ''string'', schema_format = None\<rparr>
                   | Some sc \<Rightarrow> sc),
           param_description = param_description q\<rparr>)"

text \<open>A parameter entry that is a path parameter of the name \<open>n\<close>.\<close>

definition pathParameterNamed :: "string \<Rightarrow> parameter_entry \<Rightarrow> bool" where
  "pathParameterNamed n e =
     (case e of
        ParameterObject q \<Rightarrow> param_name q = n \<and> param_in q = ''path''
      | ReferenceObject r \<Rightarrow> False)"

text \<open>
  The path parameter the metadata declares under the name \<open>n\<close>: the first entry of its
  parameter list that is a path parameter of that name.
\<close>

definition declaredFor :: "operation_object \<Rightarrow> string \<Rightarrow> parameter_object option" where
  "declaredFor schema n =
     (case op_parameters schema of
        None \<Rightarrow> None
      | Some ps \<Rightarrow>
          (case find (pathParameterNamed n) ps of
             Some (ParameterObject q) \<Rightarrow> Some q
           | _ \<Rightarrow> None))"

subsection \<open>The order of the visits\<close>

text \<open>
  The calls of \<^verbatim>\<open>recurseStack\<close> depend on the generator only through the set of handlers
  with metadata and through the mount registry, and a traversal changes neither. The
  itinerary of a layer lists, in order, the recording steps \<^verbatim>\<open>getParams(path, layer)\<close> the
  traversal of that layer makes (\<open>Visit\<close>) and the registration errors it raises
  (\<open>Raise\<close>), as long as no step before has thrown; \<open>run\<close> performs the steps. That the
  traversal is the run of its itinerary is the lemma \<open>recurseStack_itinerary\<close>.
\<close>

datatype step = Visit string layer | Raise error

function itinerary :: "(nat \<Rightarrow> bool) \<Rightarrow> (nat \<rightharpoonup> string) \<Rightarrow> string \<Rightarrow> layer \<Rightarrow> step list" where
  "itinerary registered mounts path (Layer nm h m r) =
     Visit path (Layer nm h m r) #
     (if nm = ''router'' \<and> isRouter h then
        (case mounts (hid h) of
           None \<Rightarrow> [Raise (RouterRegistrationError (routerInfo (Layer nm h m r) path))]
         | Some routerPath \<Rightarrow>
             if routerPath = [] then
               [Raise (RouterRegistrationError (routerInfo (Layer nm h m r) path))]
             else
               concat (map (\<lambda>routeLayer. itinerary registered mounts (path @ routerPath) routeLayer)
                         (case hstack h of None \<Rightarrow> [] | Some st \<Rightarrow> st)))
      else []) @
     (case r of
        None \<Rightarrow> []
      | Some rt \<Rightarrow>
          (case route_path rt of
             Multiple ps \<Rightarrow>
               (case find (\<lambda>l. registered (hid (layer_handle l))) (route_stack rt) of
                  None \<Rightarrow> []
                | Some schemaLayer \<Rightarrow>
                    concat (map (\<lambda>p. itinerary registered mounts (path @ p) schemaLayer) ps))
           | Single p \<Rightarrow>
               concat (map (\<lambda>l. itinerary registered mounts (path @ p) l) (route_stack rt))))"
  by pat_completeness auto
termination
proof (relation "measure (\<lambda>(registered, mounts, path, l). size l)", goal_cases)
  case 1
  show ?case by simp
next
  case (2 registered mounts path nm h m r x2 x)
  then show ?case
    by (cases "hstack h") (auto dest: size_hstack_member)
next
  case (3 registered mounts path nm h m r x2 x1 x)
  then show ?case
    by (auto dest: size_route_stack_member)
next
  case (4 registered mounts path nm h m r x2 x2a x2b x)
  then have "x2b \<in> set (route_stack x2)"
    by (auto dest: find_Some_member)
  with 4 show ?case
    by (auto dest: size_route_stack_member)
qed

definition registered :: "generator \<Rightarrow> nat \<Rightarrow> bool" where
  "registered g i = (schemaMap g i \<noteq> None)"

fun run :: "parser \<Rightarrow> step list \<Rightarrow> generator \<Rightarrow> outcome" where
  "run parse [] g = Done g"
| "run parse (Visit path layer # steps) g =
     (case getParams parse path layer g of
        Done g' \<Rightarrow> run parse steps g'
      | Thrown e g' \<Rightarrow> Thrown e g')"
| "run parse (Raise e # steps) g = Thrown e g"

text \<open>
  The itinerary of \<^verbatim>\<open>initializeDoc\<close> on a root with the stack \<open>st\<close>, started in the
  generator \<open>g\<close>: the itineraries of the layers of the stack, one after the other, each
  from the empty path.
\<close>

definition traversal :: "generator \<Rightarrow> layer list \<Rightarrow> step list" where
  "traversal g st = concat (map (itinerary (registered g) (routerMap g) []) st)"

text \<open>A layer the traversal takes for a sub-router without a mount path.\<close>

definition unmounted :: "(nat \<rightharpoonup> string) \<Rightarrow> layer \<Rightarrow> bool" where
  "unmounted mounts l =
     (layer_name l = ''router'' \<and> isRouter (layer_handle l) \<and>
      (mounts (hid (layer_handle l)) = None \<or> mounts (hid (layer_handle l)) = Some []))"

text \<open>Every visit of such a layer is directly followed by its registration error.\<close>

fun raisesFollow :: "(nat \<rightharpoonup> string) \<Rightarrow> step list \<Rightarrow> bool" where
  "raisesFollow mounts [] = True"
| "raisesFollow mounts (Raise e # steps) = raisesFollow mounts steps"
| "raisesFollow mounts (Visit path l # steps) =
     ((unmounted mounts l \<longrightarrow>
         (\<exists>rest. steps = Raise (RouterRegistrationError (routerInfo l path)) # rest)) \<and>
      raisesFollow mounts steps)"

subsection \<open>Recording visits\<close>

text \<open>
  What the recording step makes of the metadata \<open>schema\<close> it finds for a handler visited
  at \<open>path\<close>: the same operation with the parameters of the path (lines 43 to 75).
\<close>

definition enrich :: "parser \<Rightarrow> string \<Rightarrow> string \<Rightarrow> operation_object \<Rightarrow> operation_object" where
  "enrich parse base path schema =
     (case parse (stripBasePath base path) of
        None \<Rightarrow> schema
      | Some tokens \<Rightarrow>
          schema\<lparr>op_parameters := Some (map (keyParameter schema) (parseKeys tokens))\<rparr>)"

text \<open>
  A visit records when the handler has metadata and the method is supported: these
  are the visits that get past the two early returns of \<^verbatim>\<open>getParams\<close>.
\<close>

definition recording :: "(nat \<Rightarrow> bool) \<Rightarrow> layer \<Rightarrow> bool" where
  "recording reg l =
     (reg (hid (layer_handle l)) \<and>
      (case layer_method l of None \<Rightarrow> False | Some m \<Rightarrow> isHTTPMethod (toLowerCase m)))"

fun recordingVisits :: "(nat \<Rightarrow> bool) \<Rightarrow> step list \<Rightarrow> (string \<times> layer) list" where
  "recordingVisits reg [] = []"
| "recordingVisits reg (Visit path l # steps) =
     (if recording reg l then (path, l) # recordingVisits reg steps
      else recordingVisits reg steps)"
| "recordingVisits reg (Raise e # steps) = recordingVisits reg steps"

text \<open>The handler of a visit, and the key and method under which it records.\<close>

definition visitHandler :: "string \<times> layer \<Rightarrow> nat" where
  "visitHandler v = hid (layer_handle (snd v))"

definition target :: "string \<Rightarrow> string \<times> layer \<Rightarrow> string \<times> string" where
  "target base v =
     (openAPIPath (stripBasePath base (fst v)), toLowerCase (the (layer_method (snd v))))"

text \<open>The generator after a recording visit that found the metadata \<open>schema\<close>.\<close>

definition recorded :: "parser \<Rightarrow> string \<Rightarrow> layer \<Rightarrow> operation_object \<Rightarrow> generator \<Rightarrow> generator" where
  "recorded parse path l schema g =
     g\<lparr>doc := setOperation (fst (target (basePath g) (path, l))) (snd (target (basePath g) (path, l)))
                (enrich parse (basePath g) path schema) (doc g),
       schemaMap := (schemaMap g)(hid (layer_handle l) \<mapsto> enrich parse (basePath g) path schema)\<rparr>"

text \<open>The path of a visit parses and has no wildcard.\<close>

definition parsable :: "parser \<Rightarrow> string \<Rightarrow> string \<Rightarrow> bool" where
  "parsable parse base path =
     (case parse (stripBasePath base path) of
        None \<Rightarrow> False
      | Some tokens \<Rightarrow> find (\<lambda>k. key_type k = KWildcard) (parseKeys tokens) = None)"

text \<open>
  The visits of a list that are the first of their handler, and what it means for such
  a visit to be recorded again alike: from the metadata the registry of \<open>g'\<close> holds for
  the handler the recording step makes the same operation as from the metadata the
  registry of \<open>g\<close> holds.
\<close>

definition firstVisits :: "(string \<times> layer) list \<Rightarrow> (string \<times> layer) list" where
  "firstVisits vs =
     filter (\<lambda>v. find (\<lambda>w. visitHandler w = visitHandler v) vs = Some v) vs"

definition rerecords :: "parser \<Rightarrow> generator \<Rightarrow> generator \<Rightarrow> string \<times> layer \<Rightarrow> bool" where
  "rerecords parse g g' v =
     (map_option (enrich parse (basePath g) (fst v)) (schemaMap g' (visitHandler v))
        = map_option (enrich parse (basePath g) (fst v)) (schemaMap g (visitHandler v)))"


text \<open>
  The recording visits of a traversal that starts in the generator \<open>g\<close> on a root with
  the stack \<open>st\<close>, in order.
\<close>

definition visitsOf :: "generator \<Rightarrow> layer list \<Rightarrow> (string \<times> layer) list" where
  "visitsOf g st =
     recordingVisits (registered g) (traversal g st)"

subsection \<open>Paths as lists of segments\<close>

text \<open>
  A path made of literal text, plain markers \<^verbatim>\<open>:name\<close> and group-wrapped markers
  \<^verbatim>\<open>{:name}\<close>; how Express writes it, and the key the specification asks for, with
  \<^verbatim>\<open>{name}\<close> for either kind of marker.
\<close>

datatype segment = Literal string | Marker string | GroupMarker string

fun expressPath :: "segment list \<Rightarrow> string" where
  "expressPath [] = []"
| "expressPath (Literal s # segs) = s @ expressPath segs"
| "expressPath (Marker n # segs) = CHR '':'' # n @ expressPath segs"
| "expressPath (GroupMarker n # segs) = CHR ''{'' # CHR '':'' # n @ CHR ''}'' # expressPath segs"

fun templatePath :: "segment list \<Rightarrow> string" where
  "templatePath [] = []"
| "templatePath (Literal s # segs) = s @ templatePath segs"
| "templatePath (Marker n # segs) = CHR ''{'' # n @ CHR ''}'' # templatePath segs"
| "templatePath (GroupMarker n # segs) = CHR ''{'' # n @ CHR ''}'' # templatePath segs"

text \<open>
  The conditions under which the segments can be read off the path: a name is a
  non-empty run of word characters, literal text has none of \<^verbatim>\<open>:\<close>, \<^verbatim>\<open>{\<close>, \<^verbatim>\<open>}\<close>, and what
  follows a marker does not begin with a word character. For a plain marker the last
  condition only says that the name is the whole run of word characters; for a
  group-wrapped marker it is a restriction on the path.
\<close>

definition wordStart :: "string \<Rightarrow> bool" where
  "wordStart s = (case s of [] \<Rightarrow> False | c # _ \<Rightarrow> isWordChar c)"

definition isName :: "string \<Rightarrow> bool" where
  "isName n = (n \<noteq> [] \<and> (\<forall>c \<in> set n. isWordChar c))"

fun separated :: "segment list \<Rightarrow> bool" where
  "separated [] = True"
| "separated (Literal s # segs) =
     ((\<forall>c \<in> set s. c \<noteq> CHR '':'' \<and> c \<noteq> CHR ''{'' \<and> c \<noteq> CHR ''}'') \<and> separated segs)"
| "separated (Marker n # segs) =
     (isName n \<and> \<not> wordStart (expressPath segs) \<and> separated segs)"
| "separated (GroupMarker n # segs) =
     (isName n \<and> \<not> wordStart (expressPath segs) \<and> separated segs)"

text \<open>The first rewrite, on segments.\<close>

fun ungroup :: "segment \<Rightarrow> segment" where
  "ungroup (GroupMarker n) = Marker n"
| "ungroup seg = seg"


section \<open>Example data\<close>

text \<open>
  The token lists of path-to-regexp for the paths of the examples below. (With the
  base path \<^verbatim>\<open>/\<close> the generator parses a path without its leading slash.)
\<close>

definition exampleParse :: parser where
  "exampleParse = map_of
     [(''users/:id'', [Text ''users/'', Param ''id'']),
      (''/users/:id'', [Text ''/users/'', Param ''id'']),
      (''/users{/:id}'', [Text ''/users'', Group [Text ''/'', Param ''id'']]),
      (''/a/:x'', [Text ''/a/'', Param ''x'']),
      (''/b/:x'', [Text ''/b/'', Param ''x'']),
      (''/b{/:x}'', [Text ''/b'', Group [Text ''/'', Param ''x'']]),
      (''/b'', [Text ''/b'']),
      (''/test'', [Text ''/test'']),
      (''/files/*path'', [Text ''/files/'', Wildcard ''path'']),
      (''/{:id}abc'', [Text ''/'', Group [Param ''id''], Text ''abc'']),
      (''a/:x'', [Text ''a/'', Param ''x'']),
      (''b/:x'', [Text ''b/'', Param ''x'']),
      (''/:a{/:b}'', [Text ''/'', Param ''a'', Group [Text ''/'', Param ''b'']])]"

text \<open>An operation that declares responses only, and one with a summary.\<close>

definition okOperation :: operation_object where
  "okOperation =
     \<lparr>op_summary = None, op_description = None, op_parameters = None,
      op_responses = [(''200'', \<lparr>response_description = ''ok''\<rparr>)]\<rparr>"

definition testOperation :: operation_object where
  "testOperation =
     \<lparr>op_summary = Some ''Test endpoint'', op_description = Some ''An endpoint'',
      op_parameters = None,
      op_responses = [(''200'', \<lparr>response_description = ''Success''\<rparr>)]\<rparr>"

text \<open>
  The generator of the repository's tests, with the server \<^verbatim>\<open>/api/v1\<close>, and the one
  built from a document without servers; handler \<open>2\<close> carries metadata in both.
\<close>

definition serverGenerator :: generator where
  "serverGenerator =
     \<lparr>doc = \<lparr>doc_openapi = ''3.0.0'',
             doc_info = \<lparr>info_title = ''Test API'', info_version = ''1.0.0''\<rparr>,
             doc_servers = Some [''/api/v1''], doc_paths = Map.empty\<rparr>,
      basePath = ''/api/v1'',
      schemaMap = [2 \<mapsto> testOperation],
      routerMap = Map.empty\<rparr>"

definition plainGenerator :: generator where
  "plainGenerator =
     \<lparr>doc = \<lparr>doc_openapi = ''3.0.0'',
             doc_info = \<lparr>info_title = ''Test API'', info_version = ''1.0.0''\<rparr>,
             doc_servers = None, doc_paths = Map.empty\<rparr>,
      basePath = ''/'',
      schemaMap = [2 \<mapsto> okOperation],
      routerMap = Map.empty\<rparr>"

text \<open>
  What \<^verbatim>\<open>router.get(path, handler)\<close> pushes on a router's stack: a layer for the route,
  whose handle is the route's dispatcher, around the layer of the handler.
\<close>

definition routeLayer :: "nat \<Rightarrow> route_path \<Rightarrow> layer list \<Rightarrow> layer" where
  "routeLayer i p st = Layer ''handle'' (Handle i None) None (Some (Route p st))"

definition handlerLayer :: "nat \<Rightarrow> string \<Rightarrow> layer" where
  "handlerLayer i m = Layer ''handler'' (Handle i None) (Some m) None"

text \<open>The documents the two generators are constructed from.\<close>

definition plainDocument :: base_document where
  "plainDocument =
     \<lparr>base_openapi = Some ''3.0.0'',
      base_info = Some \<lparr>info_title = ''Test API'', info_version = ''1.0.0''\<rparr>,
      base_servers = None, base_paths = Some Map.empty\<rparr>"

definition serverDocument :: base_document where
  "serverDocument =
     \<lparr>base_openapi = Some ''3.0.0'',
      base_info = Some \<lparr>info_title = ''Test API'', info_version = ''1.0.0''\<rparr>,
      base_servers = Some [''/api/v1''], base_paths = Some Map.empty\<rparr>"

text \<open>\<^verbatim>\<open>router.get('/users/:id', handler)\<close> on the root router.\<close>

definition usersRoot :: handle where
  "usersRoot = Handle 0 (Some [routeLayer 1 (Single ''/users/:id'') [handlerLayer 2 ''get'']])"

text \<open>
  A layer whose handle is a router with one route, under a name other than \<^verbatim>\<open>router\<close>
  and under the name \<^verbatim>\<open>router\<close>.
\<close>

definition unnamedMount :: layer where
  "unnamedMount =
     Layer ''mounted''
       (Handle 5 (Some [routeLayer 1 (Single ''/test'') [handlerLayer 2 ''get'']])) None None"

definition namedMount :: layer where
  "namedMount =
     Layer ''router''
       (Handle 5 (Some [routeLayer 1 (Single ''/test'') [handlerLayer 2 ''get'']])) None None"

text \<open>
  \<^verbatim>\<open>router.get(['/a/:x', '/b/:x'], middleware, handler)\<close>, where only the handler (\<open>2\<close>)
  carries metadata, and the parameter both paths give rise to.
\<close>

definition fanoutLayer :: layer where
  "fanoutLayer =
     routeLayer 1 (Multiple [''/a/:x'', ''/b/:x''])
       [handlerLayer 3 ''get'', handlerLayer 2 ''get'']"

definition xParameter :: parameter_entry where
  "xParameter =
     ParameterObject
       \<lparr>param_name = ''x'', param_in = ''path'', param_required = Some True,
        param_schema = Some \<lparr>schema_type = Some ''string'', schema_format = None\<rparr>,
        param_description = None\<rparr>"

text \<open>
  A root with a documented route, followed by a router registered at \<^verbatim>\<open>/v2\<close> (handle \<open>5\<close>)
  that mounts a router nobody registered (handle \<open>6\<close>), which has a route of its own.
\<close>

definition nestedRoot :: handle where
  "nestedRoot =
     Handle 0 (Some
       [routeLayer 1 (Single ''/test'') [handlerLayer 2 ''get''],
        Layer ''router''
          (Handle 5 (Some
             [Layer ''router'' (Handle 6 (Some [routeLayer 7 (Single ''/b'') [handlerLayer 2 ''post'']]))
                None None]))
          None None])"

definition mountedGenerator :: generator where
  "mountedGenerator = registerRouter (Handle 5 None) ''/v2'' serverGenerator"

text \<open>
  A root with a documented route followed by a documented route with a wildcard, and a
  root whose only route has a wildcard and a handler without metadata.
\<close>

definition filesRoot :: handle where
  "filesRoot =
     Handle 0 (Some
       [routeLayer 1 (Single ''/test'') [handlerLayer 2 ''get''],
        routeLayer 3 (Single ''/files/*path'') [handlerLayer 2 ''post'']])"

definition undocumentedFilesRoot :: handle where
  "undocumentedFilesRoot =
     Handle 0 (Some [routeLayer 3 (Single ''/files/*path'') [handlerLayer 4 ''get'']])"

text \<open>
  Metadata that declares a description for the path parameter \<open>x\<close>, registered for
  handler \<open>2\<close>, and a root that binds this handler to \<^verbatim>\<open>/a/:x\<close> and to \<^verbatim>\<open>/b\<close>.
\<close>

definition describedOperation :: operation_object where
  "describedOperation =
     \<lparr>op_summary = Some ''Get a thing'', op_description = None,
      op_parameters = Some [ParameterObject
        \<lparr>param_name = ''x'', param_in = ''path'', param_required = None, param_schema = None,
         param_description = Some ''The thing''\<rparr>],
      op_responses = [(''200'', \<lparr>response_description = ''Success''\<rparr>)]\<rparr>"

definition describedGenerator :: generator where
  "describedGenerator = serverGenerator\<lparr>schemaMap := [2 \<mapsto> describedOperation]\<rparr>"

definition sharedRoot :: handle where
  "sharedRoot =
     Handle 0 (Some
       [routeLayer 1 (Single ''/a/:x'') [handlerLayer 2 ''get''],
        routeLayer 3 (Single ''/b'') [handlerLayer 2 ''get'']])"

text \<open>\<^verbatim>\<open>router.get('/users/:id', middleware, handler)\<close>, the middleware without metadata.\<close>

definition middlewareRoot :: handle where
  "middlewareRoot =
     Handle 0 (Some [routeLayer 1 (Single ''/users/:id'') [handlerLayer 3 ''get'', handlerLayer 2 ''get'']])"

text \<open>
  One handler bound to the two paths \<^verbatim>\<open>/a/:x\<close> and \<^verbatim>\<open>/b{/:x}\<close> by one route
  (\<^verbatim>\<open>router.get(['/a/:x', '/b{/:x}'], handler)\<close>).
\<close>

definition fanoutGroupRoot :: handle where
  "fanoutGroupRoot =
     Handle 0 (Some [routeLayer 1 (Multiple [''/a/:x'', ''/b{/:x}'']) [handlerLayer 2 ''get'']])"

text \<open>
  Three tests of the repository, as router trees. The token lists of their paths:
\<close>

definition testParse :: parser where
  "testParse = map_of
     [(''/api/posts/:id'', [Text ''/api/posts/'', Param ''id'']),
      (''api/test'', [Text ''api/test'']),
      (''/resource'', [Text ''/resource''])]"

text \<open>
  \<^verbatim>\<open>nested routers\<close> of \<^verbatim>\<open>generator.test.ts\<close>: the route \<^verbatim>\<open>/:id\<close> in a router used by the
  root, both routers registered; the test expects the key \<^verbatim>\<open>/api/posts/{id}\<close>.
\<close>

definition nestedTestRoot :: handle where
  "nestedTestRoot =
     Handle 10 (Some
       [Layer ''router'' (Handle 11 (Some [routeLayer 12 (Single ''/:id'') [handlerLayer 2 ''get'']]))
          None None])"

definition nestedTestGenerator :: generator where
  "nestedTestGenerator =
     registerRouter (Handle 11 None) ''/api/posts''
       (registerRouter (Handle 10 None) ''/api'' serverGenerator)"

text \<open>
  \<^verbatim>\<open>asRouterArgs\<close> of \<^verbatim>\<open>middleware.test.ts\<close>: no servers, the router registered at \<^verbatim>\<open>/api\<close>
  with the route \<^verbatim>\<open>/test\<close>, whose first handler carries the metadata; the test expects the
  key \<^verbatim>\<open>api/test\<close>.
\<close>

definition appRoot :: handle where
  "appRoot =
     Handle 20 (Some
       [Layer ''middleware'' (Handle 21 None) None None,
        Layer ''router''
          (Handle 22 (Some [routeLayer 23 (Single ''/test'')
                              [handlerLayer 2 ''get'', handlerLayer 24 ''get'']]))
          None None])"

definition appGenerator :: generator where
  "appGenerator =
     registerRouter (Handle 22 None) ''/api''
       (plainGenerator\<lparr>schemaMap := [2 \<mapsto> testOperation]\<rparr>)"

text \<open>\<^verbatim>\<open>HTTP methods\<close> of \<^verbatim>\<open>generator.test.ts\<close>: one handler under three methods.\<close>

definition methodsRoot :: handle where
  "methodsRoot =
     Handle 30 (Some
       [routeLayer 31 (Single ''/resource'') [handlerLayer 2 ''post''],
        routeLayer 32 (Single ''/resource'') [handlerLayer 2 ''put''],
        routeLayer 33 (Single ''/resource'') [handlerLayer 2 ''delete'']])"

text \<open>The route of \<open>fanoutLayer\<close> on a root router.\<close>

definition fanoutRoot :: handle where
  "fanoutRoot = Handle 0 (Some [fanoutLayer])"

text \<open>
  Metadata that declares a description, and nothing else, for the path parameter \<open>a\<close>,
  registered for handler \<open>2\<close>.
\<close>

definition declaringOperation :: operation_object where
  "declaringOperation =
     testOperation\<lparr>op_parameters := Some [ParameterObject
        \<lparr>param_name = ''a'', param_in = ''path'', param_required = None, param_schema = None,
         param_description = Some ''The first''\<rparr>]\<rparr>"

definition declaringGenerator :: generator where
  "declaringGenerator = serverGenerator\<lparr>schemaMap := [2 \<mapsto> declaringOperation]\<rparr>"

text \<open>
  A root with a documented route, followed by a layer named \<^verbatim>\<open>wrapped\<close> whose handle has a
  stack with a documented route and that nobody registered.
\<close>

definition wrappedLayer :: layer where
  "wrappedLayer =
     Layer ''wrapped'' (Handle 8 (Some [routeLayer 9 (Single ''/b'') [handlerLayer 2 ''post'']]))
       None None"

definition wrappedRoot :: handle where
  "wrappedRoot =
     Handle 0 (Some [routeLayer 1 (Single ''/test'') [handlerLayer 2 ''get''], wrappedLayer])"

text \<open>
  A router nobody registered (handle \<open>6\<close>) used by the root, with operation metadata
  registered for the router itself (\<^verbatim>\<open>addSchema(router, operation)\<close>).
\<close>

definition documentedRouter :: layer where
  "documentedRouter =
     Layer ''router'' (Handle 6 (Some [routeLayer 7 (Single ''/b'') [handlerLayer 3 ''post'']]))
       None None"

definition documentedRouterGenerator :: generator where
  "documentedRouterGenerator = addSchema (Handle 6 None) testOperation serverGenerator"

text \<open>The definitions to unfold when an example is evaluated.\<close>

lemmas example_defs =
  exampleParse_def okOperation_def testOperation_def serverGenerator_def plainGenerator_def
  routeLayer_def handlerLayer_def

lemmas generator_defs =
  initializeDoc_def getParams_def stripBasePath_def startsWith_def isHTTPMethod_def
  toLowerCase_def lower_char_def parseKeys_def setOperation_def openAPIPath_def
  isWordChar_def keyParameter_def declaredParameter_def declaresKey_def isParameterObject_def
  defaultParameter_def
  assignParameter_def isRouter_def routerInfo_def operationAt_def Let_def

section \<open>Auxiliary facts\<close>

lemma recurseStack_steps:
  "recurseStack parse path (Layer nm h m r) g =
     (case getParams parse path (Layer nm h m r) g of
        Thrown e g' \<Rightarrow> Thrown e g'
      | Done g1 \<Rightarrow>
          (case mountStep parse path (Layer nm h m r) g1 of
             Thrown e g' \<Rightarrow> Thrown e g'
           | Done g2 \<Rightarrow> routeStep parse path r g2))"
  by (simp add: mountStep_def routeStep_def cong: if_cong outcome.case_cong option.case_cong)

lemma tokenDepths_ge: "(n, t, d) \<in> set (tokenDepths d0 tokens) \<Longrightarrow> d0 \<le> d"
  by (induction d0 tokens rule: tokenDepths.induct) auto

lemma processTokens_depths:
  "processTokens tokens b acc =
     acc @ map (\<lambda>(n, t, d). \<lparr>key_name = n, key_type = t, key_required = (\<not> b \<and> d = d0)\<rparr>)
             (tokenDepths d0 tokens)"
proof (induction d0 tokens arbitrary: b acc rule: tokenDepths.induct)
  case (4 d inner tokens)
  have "map (\<lambda>(n, t, e). \<lparr>key_name = n, key_type = t, key_required = (\<not> True \<and> e = Suc d)\<rparr>)
          (tokenDepths (Suc d) inner)
      = map (\<lambda>(n, t, e). \<lparr>key_name = n, key_type = t, key_required = (\<not> b \<and> e = d)\<rparr>)
          (tokenDepths (Suc d) inner)"
    by (rule map_cong) (auto dest: tokenDepths_ge)
  with 4 show ?case by simp
qed simp_all

lemma parseKeys_depths: "parseKeys tokens = map depthKey (tokenDepths 0 tokens)"
  unfolding parseKeys_def depthKey_def
  by (simp add: processTokens_depths [where ?d0.0 = 0])

lemma declaresKey_named: "declaresKey k = pathParameterNamed (key_name k)"
  by (rule ext)
     (auto simp: declaresKey_def pathParameterNamed_def isParameterObject_def
        split: parameter_entry.splits)

lemma keyParameter_depthKey:
  "keyParameter schema (depthKey e) =
     (case declaredFor schema (fst e) of None \<Rightarrow> synthesized e | Some q \<Rightarrow> merged e q)"
proof -
  obtain n t d where e: "e = (n, t, d)" by (cases e)
  have default: "ParameterObject (defaultParameter (depthKey e)) = synthesized e"
    by (simp add: e defaultParameter_def depthKey_def synthesized_def)
  have merge: "ParameterObject (assignParameter (defaultParameter (depthKey e)) q) = merged e q"
    for q
    by (simp add: e assignParameter_def defaultParameter_def depthKey_def merged_def
          split: option.splits)
  have name: "key_name (depthKey e) = fst e"
    by (simp add: e depthKey_def)
  show ?thesis
    unfolding keyParameter_def declaredParameter_def declaredFor_def declaresKey_named name
    by (simp add: default merge split: option.splits parameter_entry.splits)
qed

lemma getParams_unregistered:
  "schemaMap g (hid (layer_handle layer)) = None \<Longrightarrow> getParams parse path layer g = Done g"
  by (simp add: getParams_def)

lemma getParams_records:
  assumes "schemaMap g (hid (layer_handle layer)) = Some schema"
    and "layer_method layer = Some m"
    and "isHTTPMethod (toLowerCase m)"
    and "parse (stripBasePath (basePath g) path) = Some tokens"
    and "find (\<lambda>k. key_type k = KWildcard) (parseKeys tokens) = None"
  shows "getParams parse path layer g =
           Done (g\<lparr>doc := setOperation (openAPIPath (stripBasePath (basePath g) path))
                            (toLowerCase m)
                            (schema\<lparr>op_parameters :=
                               Some (map (keyParameter schema) (parseKeys tokens))\<rparr>)
                            (doc g),
                   schemaMap := (schemaMap g)(hid (layer_handle layer) \<mapsto>
                            schema\<lparr>op_parameters :=
                               Some (map (keyParameter schema) (parseKeys tokens))\<rparr>)\<rparr>)"
  using assms by (simp add: getParams_def Let_def)

lemma operationAt_setOperation:
  "operationAt (setOperation path m operation d) path' m' =
     (if path' = path \<and> m' = m then Some operation else operationAt d path' m')"
  by (auto simp: operationAt_def setOperation_def Let_def split: option.splits)

lemma constructor_plainDocument:
  "constructor plainDocument = Inr (plainGenerator\<lparr>schemaMap := Map.empty\<rparr>)"
  by (simp add: constructor_def plainDocument_def plainGenerator_def)

lemma constructor_serverDocument:
  "constructor serverDocument = Inr (serverGenerator\<lparr>schemaMap := Map.empty\<rparr>)"
  by (simp add: constructor_def serverDocument_def serverGenerator_def)

lemma startsWith_append: "startsWith (p @ s) p"
  by (simp add: startsWith_def)

lemma replace_first_prefix: "startsWith s p \<Longrightarrow> replace_first p [] s = drop (length p) s"
  by (cases s) (auto simp: startsWith_def)

lemma stripBasePath_append: "stripBasePath p (p @ s) = s"
  by (simp add: stripBasePath_def startsWith_append replace_first_prefix)

lemma constructor_basePath:
  "constructor baseDoc = Inr g \<Longrightarrow> base_servers baseDoc = Some (url # others)
     \<Longrightarrow> basePath g = url"
  by (auto simp: constructor_def Let_def)

lemma doc_paths_setOperation_other:
  "k \<noteq> path \<Longrightarrow> doc_paths (setOperation path m operation d) k = doc_paths d k"
  by (simp add: setOperation_def Let_def)

lemma getParams_stack_irrelevant:
  "getParams parse path (Layer nm (Handle i st) m r) g
     = getParams parse path (Layer nm (Handle i None) m r) g"
  by (simp add: getParams_def Let_def split: option.splits)

subsection \<open>The repository's tests on the model\<close>

text \<open>The model gives the documents the tests of the repository expect.\<close>

lemma nested_routers_test:
  "map_option op_summary
     (operationAt
        (doc (generatorOf (initializeDoc testParse (Some nestedTestRoot) nestedTestGenerator)))
        ''/api/posts/{id}'' ''get'')
     = Some (Some ''Test endpoint'')"
  by (simp add: testParse_def nestedTestRoot_def nestedTestGenerator_def registerRouter_def
        example_defs generator_defs)

lemma asRouterArgs_test:
  "map_option op_summary
     (operationAt (doc (generatorOf (initializeDoc testParse (Some appRoot) appGenerator)))
        ''api/test'' ''get'')
     = Some (Some ''Test endpoint'')"
  by (simp add: testParse_def appRoot_def appGenerator_def registerRouter_def
        example_defs generator_defs)

lemma http_methods_test:
  "operationAt (doc (generatorOf (initializeDoc testParse (Some methodsRoot) serverGenerator)))
     ''/resource'' ''post'' \<noteq> None \<and>
   operationAt (doc (generatorOf (initializeDoc testParse (Some methodsRoot) serverGenerator)))
     ''/resource'' ''put'' \<noteq> None \<and>
   operationAt (doc (generatorOf (initializeDoc testParse (Some methodsRoot) serverGenerator)))
     ''/resource'' ''delete'' \<noteq> None"
  by (simp add: testParse_def methodsRoot_def example_defs generator_defs)

subsection \<open>The traversal is the run of its itinerary\<close>

declare itinerary.simps [simp del]

lemma getParams_control:
  "getParams parse path layer g = Done g' \<Longrightarrow>
     registered g' = registered g \<and> routerMap g' = routerMap g \<and> basePath g' = basePath g"
  by (auto simp: getParams_def Let_def registered_def fun_eq_iff
        split: option.splits if_splits)

lemma getParams_Thrown_same:
  "getParams parse path layer g = Thrown e g' \<Longrightarrow> g' = g"
  by (auto simp: getParams_def Let_def split: option.splits if_splits)

lemma run_control:
  "run parse steps g = Done g' \<Longrightarrow>
     registered g' = registered g \<and> routerMap g' = routerMap g \<and> basePath g' = basePath g"
proof (induction steps arbitrary: g)
  case Nil
  then show ?case by simp
next
  case (Cons s steps)
  show ?case
  proof (cases s)
    case (Visit path layer)
    with Cons.prems obtain g1 where g1: "getParams parse path layer g = Done g1"
      and rest: "run parse steps g1 = Done g'"
      by (auto split: outcome.splits)
    from Cons.IH [OF rest] getParams_control [OF g1] show ?thesis by simp
  next
    case (Raise e)
    with Cons.prems show ?thesis by simp
  qed
qed

lemma run_append:
  "run parse (xs @ ys) g =
     (case run parse xs g of Done g' \<Rightarrow> run parse ys g' | Thrown e g' \<Rightarrow> Thrown e g')"
proof (induction xs arbitrary: g)
  case Nil
  then show ?case by simp
next
  case (Cons s xs)
  then show ?case
    by (cases s) (auto split: outcome.splits)
qed

lemma forEach_run:
  assumes "\<And>x s. x \<in> set xs \<Longrightarrow> registered s = registered g \<Longrightarrow> routerMap s = routerMap g
             \<Longrightarrow> f x s = run parse (pl x) s"
  shows "forEach xs f g = run parse (concat (map pl xs)) g"
  using assms
proof (induction xs arbitrary: g)
  case Nil
  then show ?case by simp
next
  case (Cons x xs)
  have head: "f x g = run parse (pl x) g"
    by (rule Cons.prems) simp_all
  show ?case
  proof (cases "run parse (pl x) g")
    case (Done g1)
    from run_control [OF Done]
    have same: "registered g1 = registered g" "routerMap g1 = routerMap g" by simp_all
    have "forEach xs f g1 = run parse (concat (map pl xs)) g1"
      by (rule Cons.IH) (rule Cons.prems, simp_all add: same)
    with head Done show ?thesis
      by (simp add: run_append)
  next
    case (Thrown e g1)
    with head show ?thesis
      by (simp add: run_append)
  qed
qed

lemma recurseStack_itinerary_aux:
  "\<forall>g. registered g = reg \<and> routerMap g = mounts \<longrightarrow>
       recurseStack parse path layer g = run parse (itinerary reg mounts path layer) g"
proof (induction reg mounts path layer rule: itinerary.induct)
  case (1 reg mounts path nm h m r)
  show ?case
  proof (intro allI impI)
    fix g
    assume ctl: "registered g = reg \<and> routerMap g = mounts"
    let ?L = "Layer nm h m r"
    let ?mount = "if nm = ''router'' \<and> isRouter h then
        (case mounts (hid h) of
           None \<Rightarrow> [Raise (RouterRegistrationError (routerInfo ?L path))]
         | Some routerPath \<Rightarrow>
             if routerPath = [] then
               [Raise (RouterRegistrationError (routerInfo ?L path))]
             else
               concat (map (\<lambda>routeLayer. itinerary reg mounts (path @ routerPath) routeLayer)
                         (case hstack h of None \<Rightarrow> [] | Some st \<Rightarrow> st)))
      else []"
    let ?route = "case r of
        None \<Rightarrow> []
      | Some rt \<Rightarrow>
          (case route_path rt of
             Multiple ps \<Rightarrow>
               (case find (\<lambda>l. reg (hid (layer_handle l))) (route_stack rt) of
                  None \<Rightarrow> []
                | Some schemaLayer \<Rightarrow>
                    concat (map (\<lambda>p. itinerary reg mounts (path @ p) schemaLayer) ps))
           | Single p \<Rightarrow>
               concat (map (\<lambda>l. itinerary reg mounts (path @ p) l) (route_stack rt)))"
    have it: "itinerary reg mounts path ?L = Visit path ?L # ?mount @ ?route"
      by (simp add: itinerary.simps)
    have mount: "mountStep parse path ?L g1 = run parse ?mount g1"
      if c1: "registered g1 = reg" "routerMap g1 = mounts" for g1
    proof (cases "nm = ''router'' \<and> isRouter h")
      case False
      then show ?thesis by (auto simp: mountStep_def)
    next
      case True
      show ?thesis
      proof (cases "mounts (hid h)")
        case None
        with True c1 show ?thesis by (simp add: mountStep_def)
      next
        case (Some routerPath)
        show ?thesis
        proof (cases "routerPath = []")
          case True
          with \<open>nm = ''router'' \<and> isRouter h\<close> Some c1 show ?thesis
            by (simp add: mountStep_def)
        next
          case False
          have "forEach (case hstack h of None \<Rightarrow> [] | Some st \<Rightarrow> st)
                  (\<lambda>routeLayer. recurseStack parse (path @ routerPath) routeLayer) g1
                = run parse (concat (map (\<lambda>routeLayer. itinerary reg mounts (path @ routerPath) routeLayer)
                         (case hstack h of None \<Rightarrow> [] | Some st \<Rightarrow> st))) g1"
            by (rule forEach_run)
               (use "1.IH"(1) [OF True Some False] c1 in auto)
          with True Some False c1 show ?thesis
            by (simp add: mountStep_def)
        qed
      qed
    qed
    have route: "routeStep parse path r g2 = run parse ?route g2"
      if c2: "registered g2 = reg" "routerMap g2 = mounts" for g2
    proof (cases r)
      case None
      then show ?thesis by (simp add: routeStep_def)
    next
      case (Some rt)
      show ?thesis
      proof (cases "route_path rt")
        case (Single p)
        have "forEach (route_stack rt) (\<lambda>l. recurseStack parse (path @ p) l) g2
              = run parse (concat (map (\<lambda>l. itinerary reg mounts (path @ p) l) (route_stack rt))) g2"
          by (rule forEach_run) (use "1.IH"(2) [OF Some Single] c2 in auto)
        with Some Single show ?thesis
          by (simp add: routeStep_def)
      next
        case (Multiple ps)
        have f: "find (\<lambda>l. schemaMap g2 (hid (layer_handle l)) \<noteq> None) (route_stack rt)
                 = find (\<lambda>l. reg (hid (layer_handle l))) (route_stack rt)"
          using c2 by (simp add: registered_def fun_eq_iff)
        show ?thesis
        proof (cases "find (\<lambda>l. reg (hid (layer_handle l))) (route_stack rt)")
          case None
          with Some Multiple f show ?thesis by (simp add: routeStep_def)
        next
          case (Some schemaLayer)
          have "forEach ps (\<lambda>p. recurseStack parse (path @ p) schemaLayer) g2
                = run parse (concat (map (\<lambda>p. itinerary reg mounts (path @ p) schemaLayer) ps)) g2"
            by (rule forEach_run) (use "1.IH"(3) [OF \<open>r = Some rt\<close> Multiple Some] c2 in auto)
          with \<open>r = Some rt\<close> Multiple Some f show ?thesis
            by (simp add: routeStep_def)
        qed
      qed
    qed
    show "recurseStack parse path ?L g = run parse (itinerary reg mounts path ?L) g"
    proof (cases "getParams parse path ?L g")
      case (Thrown e g')
      then show ?thesis
        by (simp add: recurseStack_steps it del: recurseStack.simps)
    next
      case (Done g1)
      from getParams_control [OF Done] ctl
      have c1: "registered g1 = reg" "routerMap g1 = mounts" by simp_all
      show ?thesis
      proof (cases "run parse ?mount g1")
        case (Thrown e g')
        with Done mount [OF c1] show ?thesis
          by (simp add: recurseStack_steps it run_append del: recurseStack.simps)
      next
        case d2: (Done g2)
        from run_control [OF d2] c1
        have c2: "registered g2 = reg" "routerMap g2 = mounts" by simp_all
        from Done d2 mount [OF c1] route [OF c2] show ?thesis
          by (simp add: recurseStack_steps it run_append del: recurseStack.simps)
      qed
    qed
  qed
qed

lemma recurseStack_itinerary:
  "recurseStack parse path layer g =
     run parse (itinerary (registered g) (routerMap g) path layer) g"
  using recurseStack_itinerary_aux [of "registered g" "routerMap g" parse path layer] by simp

lemma initializeDoc_itinerary:
  "hstack root = Some st \<Longrightarrow>
   initializeDoc parse (Some root) g = run parse (traversal g st) g"
  unfolding initializeDoc_def traversal_def
  by (simp, rule forEach_run) (metis recurseStack_itinerary)


lemma raisesFollow_append:
  "raisesFollow mounts xs \<Longrightarrow> raisesFollow mounts ys \<Longrightarrow> raisesFollow mounts (xs @ ys)"
  by (induction mounts xs rule: raisesFollow.induct) auto

lemma raisesFollow_concat:
  "(\<And>xs. xs \<in> set xss \<Longrightarrow> raisesFollow mounts xs) \<Longrightarrow> raisesFollow mounts (concat xss)"
  by (induction xss) (auto intro: raisesFollow_append)

lemma raisesFollow_itinerary: "raisesFollow mounts (itinerary reg mounts path layer)"
proof (induction reg mounts path layer rule: itinerary.induct)
  case (1 reg mounts path nm h m r)
  let ?L = "Layer nm h m r"
  let ?mount = "if nm = ''router'' \<and> isRouter h then
        (case mounts (hid h) of
           None \<Rightarrow> [Raise (RouterRegistrationError (routerInfo ?L path))]
         | Some routerPath \<Rightarrow>
             if routerPath = [] then
               [Raise (RouterRegistrationError (routerInfo ?L path))]
             else
               concat (map (\<lambda>routeLayer. itinerary reg mounts (path @ routerPath) routeLayer)
                         (case hstack h of None \<Rightarrow> [] | Some st \<Rightarrow> st)))
      else []"
  let ?route = "case r of
        None \<Rightarrow> []
      | Some rt \<Rightarrow>
          (case route_path rt of
             Multiple ps \<Rightarrow>
               (case find (\<lambda>l. reg (hid (layer_handle l))) (route_stack rt) of
                  None \<Rightarrow> []
                | Some schemaLayer \<Rightarrow>
                    concat (map (\<lambda>p. itinerary reg mounts (path @ p) schemaLayer) ps))
           | Single p \<Rightarrow>
               concat (map (\<lambda>l. itinerary reg mounts (path @ p) l) (route_stack rt)))"
  have it: "itinerary reg mounts path ?L = Visit path ?L # ?mount @ ?route"
    by (simp add: itinerary.simps)
  have m: "raisesFollow mounts ?mount"
    using "1.IH"(1) by (auto split: option.splits intro!: raisesFollow_concat)
  have r: "raisesFollow mounts ?route"
    using "1.IH"(2,3) by (auto split: option.splits route_path.splits intro!: raisesFollow_concat)
  have first: "\<exists>rest. ?mount @ ?route = Raise (RouterRegistrationError (routerInfo ?L path)) # rest"
    if "unmounted mounts ?L"
    using that by (auto simp: unmounted_def)
  from m r first show ?case
    unfolding it by (simp add: raisesFollow_append)
qed

lemma raisesFollow_at:
  "raisesFollow mounts steps \<Longrightarrow> steps = before @ Visit path l # after \<Longrightarrow> unmounted mounts l
     \<Longrightarrow> \<exists>rest. after = Raise (RouterRegistrationError (routerInfo l path)) # rest"
proof (induction mounts steps arbitrary: before rule: raisesFollow.induct)
  case (1 mounts)
  then show ?case by simp
next
  case (2 mounts e steps)
  then show ?case by (cases before) auto
next
  case (3 mounts p l' steps)
  then show ?case by (cases before) auto
qed

lemma raisesFollow_traversal: "raisesFollow (routerMap g) (traversal g st)"
  unfolding traversal_def
  by (intro raisesFollow_concat) (auto simp: raisesFollow_itinerary)

subsection \<open>Repeating a traversal\<close>

lemma keyParameter_shape:
  "\<exists>q. keyParameter schema k = ParameterObject q \<and> param_name q = key_name k \<and>
       param_in q = ''path'' \<and> param_required q \<noteq> None \<and> param_schema q \<noteq> None"
proof (cases "declaredParameter schema k")
  case None
  then show ?thesis
    by (simp add: keyParameter_def defaultParameter_def)
next
  case (Some p)
  then obtain ps where "find (declaresKey k) ps = Some p"
    by (auto simp: declaredParameter_def split: option.splits)
  then have "declaresKey k p"
    by (auto simp: find_Some_iff)
  then obtain q where "p = ParameterObject q" "param_name q = key_name k" "param_in q = ''path''"
    by (cases p) (auto simp: declaresKey_def isParameterObject_def split: if_splits)
  with Some show ?thesis
    by (auto simp: keyParameter_def assignParameter_def defaultParameter_def split: option.splits)
qed

lemma declaresKey_keyParameter:
  "declaresKey k (keyParameter schema k') = (key_name k' = key_name k)"
  using keyParameter_shape [of schema k']
  by (auto simp: declaresKey_def isParameterObject_def)

lemma find_own_parameter:
  "k \<in> set ks \<Longrightarrow> distinct (map key_name ks) \<Longrightarrow>
     find (declaresKey k) (map (keyParameter schema) ks) = Some (keyParameter schema k)"
proof (induction ks)
  case Nil
  then show ?case by simp
next
  case (Cons k0 ks)
  show ?case
  proof (cases "k0 = k")
    case True
    then show ?thesis by (simp add: declaresKey_keyParameter)
  next
    case False
    with Cons.prems have "k \<in> set ks" "key_name k0 \<noteq> key_name k" by auto
    with Cons show ?thesis by (simp add: declaresKey_keyParameter)
  qed
qed

lemma keyParameter_again:
  assumes "k \<in> set ks" and "distinct (map key_name ks)"
  shows "keyParameter (schema\<lparr>op_parameters := Some (map (keyParameter schema) ks)\<rparr>) k
           = keyParameter schema k"
proof -
  obtain q where q: "keyParameter schema k = ParameterObject q" "param_required q \<noteq> None"
      "param_schema q \<noteq> None"
    using keyParameter_shape [of schema k] by blast
  have "declaredParameter (schema\<lparr>op_parameters := Some (map (keyParameter schema) ks)\<rparr>) k
          = Some (ParameterObject q)"
    using find_own_parameter [OF assms] q(1) by (simp add: declaredParameter_def)
  moreover have "assignParameter (defaultParameter k) q = q"
    using q(2,3)
    by (cases q) (auto simp: assignParameter_def defaultParameter_def split: option.splits)
  ultimately show ?thesis
    using q(1) by (simp add: keyParameter_def)
qed

lemma enrich_idem:
  assumes "\<And>tokens. parse (stripBasePath base path) = Some tokens
             \<Longrightarrow> distinct (map key_name (parseKeys tokens))"
  shows "enrich parse base path (enrich parse base path schema) = enrich parse base path schema"
proof (cases "parse (stripBasePath base path)")
  case None
  then show ?thesis by (simp add: enrich_def)
next
  case (Some tokens)
  have "map (keyParameter (schema\<lparr>op_parameters := Some (map (keyParameter schema) (parseKeys tokens))\<rparr>))
          (parseKeys tokens) = map (keyParameter schema) (parseKeys tokens)"
    by (rule map_cong) (simp_all add: keyParameter_again assms [OF Some])
  with Some show ?thesis by (simp add: enrich_def)
qed



lemma getParams_recording:
  assumes "recording (registered g) l" and "schemaMap g (hid (layer_handle l)) = Some schema"
  shows "getParams parse path l g =
           (if parsable parse (basePath g) path then Done (recorded parse path l schema g)
            else Thrown (case parse (stripBasePath (basePath g) path) of
                           None \<Rightarrow> TypeError
                         | Some tokens \<Rightarrow>
                             WildcardPathError
                               (PathInfo (stripBasePath (basePath g) path) (layer_name l))) g)"
  using assms
  by (auto simp: getParams_def Let_def recording_def parsable_def recorded_def target_def
        enrich_def split: option.splits)

lemma recorded_simps:
  "basePath (recorded parse path l schema g) = basePath g"
  "routerMap (recorded parse path l schema g) = routerMap g"
  "schemaMap (recorded parse path l schema g) i =
     (if i = hid (layer_handle l) then Some (enrich parse (basePath g) path schema)
      else schemaMap g i)"
  "doc_openapi (doc (recorded parse path l schema g)) = doc_openapi (doc g)"
  "doc_info (doc (recorded parse path l schema g)) = doc_info (doc g)"
  "doc_servers (doc (recorded parse path l schema g)) = doc_servers (doc g)"
  by (simp_all add: recorded_def setOperation_def Let_def)

lemma operationAt_recorded:
  "operationAt (doc (recorded parse path l schema g)) k m =
     (if (k, m) = target (basePath g) (path, l) then Some (enrich parse (basePath g) path schema)
      else operationAt (doc g) k m)"
  by (auto simp: recorded_def operationAt_setOperation prod_eq_iff)




lemma visitHandler_pair [simp]: "visitHandler (path, l) = hid (layer_handle l)"
  by (simp add: visitHandler_def)











text \<open>
  A handler that is not recorded again alike: in \<open>sharedRoot\<close> the visit of \<^verbatim>\<open>/b\<close> leaves the
  metadata of handler \<open>2\<close> without parameters, so that the visit of \<^verbatim>\<open>/a/:x\<close> no longer
  finds the description of \<open>x\<close> it found in the metadata as registered.
\<close>

lemma shared_handler_not_rerecorded:
  "firstVisits (visitsOf describedGenerator
      [routeLayer 1 (Single ''/a/:x'') [handlerLayer 2 ''get''],
       routeLayer 3 (Single ''/b'') [handlerLayer 2 ''get'']])
     = [(''/a/:x'', handlerLayer 2 ''get'')] \<and>
   \<not> rerecords exampleParse describedGenerator
        (generatorOf (initializeDoc exampleParse (Some sharedRoot) describedGenerator))
        (''/a/:x'', handlerLayer 2 ''get'')"
proof -
  have "visitsOf describedGenerator
      [routeLayer 1 (Single ''/a/:x'') [handlerLayer 2 ''get''],
       routeLayer 3 (Single ''/b'') [handlerLayer 2 ''get'']]
     = [(''/a/:x'', handlerLayer 2 ''get''), (''/b'', handlerLayer 2 ''get'')]"
    by (simp add: visitsOf_def traversal_def itinerary.simps registered_def recording_def
          describedGenerator_def example_defs generator_defs)
  moreover have "firstVisits [(''/a/:x'', handlerLayer 2 ''get''), (''/b'', handlerLayer 2 ''get'')]
     = [(''/a/:x'', handlerLayer 2 ''get'')]"
    by (simp add: firstVisits_def handlerLayer_def)
  moreover have "\<not> rerecords exampleParse describedGenerator
        (generatorOf (initializeDoc exampleParse (Some sharedRoot) describedGenerator))
        (''/a/:x'', handlerLayer 2 ''get'')"
    by (simp add: rerecords_def enrich_def sharedRoot_def describedGenerator_def
          describedOperation_def example_defs generator_defs)
  ultimately show ?thesis by simp
qed

subsection \<open>Recording the paths of an array\<close>

lemma recurseStack_handler:
  "hstack h = None \<Longrightarrow>
     recurseStack parse path (Layer nm h m None) = getParams parse path (Layer nm h m None)"
  by (rule ext)
     (simp add: recurseStack_steps mountStep_def routeStep_def isRouter_def
        del: recurseStack.simps split: outcome.splits)

lemma enrich_keeps:
  "op_summary (enrich parse base path schema) = op_summary schema"
  "op_description (enrich parse base path schema) = op_description schema"
  "op_responses (enrich parse base path schema) = op_responses schema"
  by (simp_all add: enrich_def split: option.splits)

lemma keyParameters_named:
  "list_all2 (\<lambda>e t. pathParameterNamed (fst t) e)
     (map (keyParameter schema) (parseKeys tokens)) (tokenDepths 0 tokens)"
proof -
  have "pathParameterNamed (fst t) (keyParameter schema (depthKey t))" for t
    using keyParameter_shape [of schema "depthKey t"]
    by (auto simp: pathParameterNamed_def depthKey_def split_def)
  then show ?thesis
    by (simp add: parseKeys_depths list_all2_conv_all_nth)
qed

lemma forEach_getParams_entries:
  assumes "layer_method sl = Some m'" and "isHTTPMethod (toLowerCase m')"
    and "schemaMap g (hid (layer_handle sl)) = Some schema"
    and "\<forall>p \<in> set ps. parsable parse (basePath g) (path @ p)"
    and "distinct (map (\<lambda>p. openAPIPath (stripBasePath (basePath g) (path @ p))) ps)"
  shows "\<exists>g'. forEach ps (\<lambda>p. getParams parse (path @ p) sl) g = Done g' \<and>
           (\<forall>k. k \<notin> (\<lambda>p. openAPIPath (stripBasePath (basePath g) (path @ p))) ` set ps \<longrightarrow>
                operationAt (doc g') k (toLowerCase m') = operationAt (doc g) k (toLowerCase m')) \<and>
           (\<forall>p \<in> set ps. \<exists>operation tokens params.
              parse (stripBasePath (basePath g) (path @ p)) = Some tokens \<and>
              operationAt (doc g') (openAPIPath (stripBasePath (basePath g) (path @ p)))
                (toLowerCase m') = Some operation \<and>
              op_summary operation = op_summary schema \<and>
              op_description operation = op_description schema \<and>
              op_responses operation = op_responses schema \<and>
              op_parameters operation = Some params \<and>
              list_all2 (\<lambda>e t. pathParameterNamed (fst t) e) params (tokenDepths 0 tokens))"
  using assms(3-5)
proof (induction ps arbitrary: g schema)
  case Nil
  then show ?case by simp
next
  case (Cons p ps)
  let ?key = "\<lambda>p. openAPIPath (stripBasePath (basePath g) (path @ p))"
  let ?m = "toLowerCase m'"
  let ?ga = "recorded parse (path @ p) sl schema g"
  let ?S = "enrich parse (basePath g) (path @ p) schema"
  from assms(1,2) Cons.prems(1) have rec: "recording (registered g) sl"
    by (simp add: recording_def registered_def)
  from Cons.prems(2) have pars: "parsable parse (basePath g) (path @ p)" by simp
  then obtain tokens where tokens: "parse (stripBasePath (basePath g) (path @ p)) = Some tokens"
    by (auto simp: parsable_def split: option.splits)
  from getParams_recording [OF rec Cons.prems(1), of parse "path @ p"] pars
  have step: "getParams parse (path @ p) sl g = Done ?ga" by simp
  have base: "basePath ?ga = basePath g" by (simp add: recorded_simps)
  have "schemaMap ?ga (hid (layer_handle sl)) = Some ?S" by (simp add: recorded_simps)
  moreover have "\<forall>p \<in> set ps. parsable parse (basePath ?ga) (path @ p)"
    using Cons.prems(2) base by simp
  moreover have "distinct (map (\<lambda>p. openAPIPath (stripBasePath (basePath ?ga) (path @ p))) ps)"
    using Cons.prems(3) base by simp
  ultimately obtain g' where g': "forEach ps (\<lambda>p. getParams parse (path @ p) sl) ?ga = Done g'"
    and frame: "\<And>k. k \<notin> ?key ` set ps \<Longrightarrow> operationAt (doc g') k ?m = operationAt (doc ?ga) k ?m"
    and entries: "\<And>q. q \<in> set ps \<Longrightarrow> \<exists>operation tokens params.
              parse (stripBasePath (basePath g) (path @ q)) = Some tokens \<and>
              operationAt (doc g') (?key q) ?m = Some operation \<and>
              op_summary operation = op_summary ?S \<and>
              op_description operation = op_description ?S \<and>
              op_responses operation = op_responses ?S \<and>
              op_parameters operation = Some params \<and>
              list_all2 (\<lambda>e t. pathParameterNamed (fst t) e) params (tokenDepths 0 tokens)"
    using Cons.IH [of ?ga ?S] unfolding base by blast
  have tgt: "target (basePath g) (path @ p, sl) = (?key p, ?m)"
    using assms(1) by (simp add: target_def)
  from Cons.prems(3) have fresh: "?key p \<notin> ?key ` set ps" by auto
  have own: "operationAt (doc g') (?key p) ?m = Some ?S"
    using frame [OF fresh] by (simp add: operationAt_recorded tgt)
  have "forEach (p # ps) (\<lambda>p. getParams parse (path @ p) sl) g = Done g'"
    using step g' by simp
  moreover have "operationAt (doc g') k ?m = operationAt (doc g) k ?m"
    if "k \<notin> ?key ` set (p # ps)" for k
  proof -
    from that have "k \<noteq> ?key p" "k \<notin> ?key ` set ps" by auto
    with frame [of k] show ?thesis by (simp add: operationAt_recorded tgt)
  qed
  moreover have "\<exists>operation tokens params.
              parse (stripBasePath (basePath g) (path @ q)) = Some tokens \<and>
              operationAt (doc g') (?key q) ?m = Some operation \<and>
              op_summary operation = op_summary schema \<and>
              op_description operation = op_description schema \<and>
              op_responses operation = op_responses schema \<and>
              op_parameters operation = Some params \<and>
              list_all2 (\<lambda>e t. pathParameterNamed (fst t) e) params (tokenDepths 0 tokens)"
    if "q \<in> set (p # ps)" for q
  proof (cases "q = p")
    case True
    have "op_parameters ?S = Some (map (keyParameter schema) (parseKeys tokens))"
      using tokens by (simp add: enrich_def)
    with own tokens True show ?thesis
      by (simp add: enrich_keeps keyParameters_named)
  next
    case False
    with that have "q \<in> set ps" by simp
    from entries [OF this] show ?thesis by (simp add: enrich_keeps)
  qed
  ultimately show ?case by blast
qed

subsection \<open>Rewriting a path of separated segments\<close>

lemma not_word_chars:
  "\<not> isWordChar CHR '':''" "\<not> isWordChar CHR ''{''" "\<not> isWordChar CHR ''}''"
  by (simp_all add: isWordChar_def)

lemma name_chars:
  "isName n \<Longrightarrow> c \<in> set n \<Longrightarrow> c \<noteq> CHR '':'' \<and> c \<noteq> CHR ''{'' \<and> c \<noteq> CHR ''}''"
  using not_word_chars by (auto simp: isName_def)

lemma takeWhile_not_wordStart: "\<not> wordStart t \<Longrightarrow> takeWhile isWordChar t = []"
  by (cases t) (simp_all add: wordStart_def)

lemma dropWhile_not_wordStart: "\<not> wordStart t \<Longrightarrow> dropWhile isWordChar t = t"
  by (cases t) (simp_all add: wordStart_def)

lemma takeWhile_name:
  "isName n \<Longrightarrow> \<not> wordStart t \<Longrightarrow> takeWhile isWordChar (n @ t) = n"
  by (simp add: isName_def takeWhile_not_wordStart)

lemma dropWhile_name:
  "isName n \<Longrightarrow> \<not> wordStart t \<Longrightarrow> dropWhile isWordChar (n @ t) = t"
  by (simp add: isName_def dropWhile_not_wordStart)

lemma unwrap_literal:
  "(\<forall>c \<in> set s. c \<noteq> CHR ''{'') \<Longrightarrow>
     unwrap_group_markers (s @ t) = s @ unwrap_group_markers t"
proof (induction s)
  case Nil
  then show ?case by simp
next
  case (Cons c s)
  then have "match_group_marker (c # s @ t) = None"
    by (cases "s @ t") auto
  with Cons show ?case by simp
qed

lemma unwrap_group:
  assumes "isName n"
  shows "unwrap_group_markers (CHR ''{'' # CHR '':'' # n @ CHR ''}'' # t)
           = CHR '':'' # n @ unwrap_group_markers t"
proof -
  have "\<not> wordStart (CHR ''}'' # t)"
    by (simp add: wordStart_def not_word_chars)
  with assms have "takeWhile isWordChar (n @ CHR ''}'' # t) = n"
    and "dropWhile isWordChar (n @ CHR ''}'' # t) = CHR ''}'' # t"
    by (rule takeWhile_name, rule dropWhile_name)
  moreover from assms have "n \<noteq> []" by (simp add: isName_def)
  ultimately have "match_group_marker (CHR ''{'' # CHR '':'' # n @ CHR ''}'' # t) = Some (n, t)"
    by (simp only: match_group_marker.simps) simp
  then show ?thesis
    by (simp only: unwrap_group_markers.simps) simp
qed

lemma unwrap_expressPath:
  "separated segs \<Longrightarrow>
     unwrap_group_markers (expressPath segs) = expressPath (map ungroup segs)"
proof (induction segs)
  case Nil
  then show ?case by simp
next
  case (Cons seg segs)
  show ?case
  proof (cases seg)
    case (Literal s)
    with Cons show ?thesis by (simp add: unwrap_literal)
  next
    case (Marker n)
    with Cons.prems have "\<forall>c \<in> set (CHR '':'' # n). c \<noteq> CHR ''{''"
      by (auto dest: name_chars)
    from unwrap_literal [OF this, of "expressPath segs"] Cons Marker show ?thesis by simp
  next
    case (GroupMarker n)
    with Cons show ?thesis
      by (simp add: unwrap_group del: unwrap_group_markers.simps)
  qed
qed

lemma brace_literal:
  "(\<forall>c \<in> set s. c \<noteq> CHR '':'') \<Longrightarrow>
     brace_param_markers (s @ t) = s @ brace_param_markers t"
  by (induction s) simp_all

lemma brace_marker:
  assumes "isName n" and "\<not> wordStart t"
  shows "brace_param_markers (CHR '':'' # n @ t) = CHR ''{'' # n @ CHR ''}'' # brace_param_markers t"
proof -
  from assms have "takeWhile isWordChar (n @ t) = n" and "dropWhile isWordChar (n @ t) = t"
    by (rule takeWhile_name, rule dropWhile_name)
  moreover from assms have "n \<noteq> []" by (simp add: isName_def)
  ultimately have "match_param_marker (CHR '':'' # n @ t) = Some (n, t)"
    by (simp only: match_param_marker.simps) simp
  then show ?thesis
    by (simp only: brace_param_markers.simps) simp
qed

lemma wordStart_ungroup:
  "wordStart (expressPath (map ungroup segs)) = wordStart (expressPath segs)"
proof (induction segs)
  case Nil
  then show ?case by simp
next
  case (Cons seg segs)
  then show ?case
    by (cases seg; cases "case seg of Literal s \<Rightarrow> s | _ \<Rightarrow> []")
       (auto simp: wordStart_def not_word_chars)
qed

lemma brace_expressPath:
  "separated segs \<Longrightarrow>
     brace_param_markers (expressPath (map ungroup segs)) = templatePath segs"
proof (induction segs)
  case Nil
  then show ?case by simp
next
  case (Cons seg segs)
  then show ?case
    by (cases seg)
       (simp_all add: brace_literal brace_marker wordStart_ungroup
          del: brace_param_markers.simps)
qed

text \<open>
  On such a path the two rewrites produce the key the specification asks for, marker
  by marker and in order.
\<close>

lemma openAPIPath_separated:
  "separated segs \<Longrightarrow> openAPIPath (expressPath segs) = templatePath segs"
  by (simp add: openAPIPath_def unwrap_expressPath brace_expressPath)

section \<open>The claims\<close>

subsection \<open>Unregistered sub-routers\<close>

text \<open>
  Claim C1, as amended. Let the traversal of a root reach a layer named \<^verbatim>\<open>router\<close> whose
  handle has a stack and for whose handle \<^verbatim>\<open>registerRouter\<close> was never called: the layer is
  visited at the accumulated path \<open>path\<close>, the steps before it end in the generator \<open>g\<close>,
  and the layer's own recording step returns (as it does whenever no operation metadata
  is registered for the router itself). Then \<^verbatim>\<open>initializeDoc\<close> raises
  \<^verbatim>\<open>RouterRegistrationError\<close> with the name \<^verbatim>\<open>router\<close>, that path and the size of the
  router's stack, and it leaves the generator as that recording step left it: nothing
  below the sub-router is recorded.
\<close>

theorem unregistered_router_raises:
  assumes "hstack root = Some st"
    and "traversal g0 st = before @ Visit path l # after"
    and "run parse before g0 = Done g"
    and "layer_name l = ''router''"
    and "hstack (layer_handle l) = Some layers"
    and "routerMap g0 (hid (layer_handle l)) = None"
    and "getParams parse path l g = Done g'"
  shows "initializeDoc parse (Some root) g0 =
           Thrown (RouterRegistrationError (RouterInfo ''router'' path (length layers))) g'"
proof -
  have "raisesFollow (routerMap g0) (traversal g0 st)"
    by (rule raisesFollow_traversal)
  moreover have "unmounted (routerMap g0) l"
    using assms(4-6) by (simp add: unmounted_def isRouter_def)
  ultimately obtain rest where
    "after = Raise (RouterRegistrationError (routerInfo l path)) # rest"
    using assms(2) by (blast dest: raisesFollow_at)
  moreover have "routerInfo l path = RouterInfo ''router'' path (length layers)"
    using assms(4,5) by (simp add: routerInfo_def)
  ultimately show ?thesis
    using assms(1,2,3,7) by (simp add: initializeDoc_itinerary run_append)
qed

theorem unregistered_router_raises_witness:
  "\<exists>g. initializeDoc exampleParse (Some nestedRoot) mountedGenerator =
          Thrown (RouterRegistrationError (RouterInfo ''router'' ''/v2'' 1)) g \<and>
        operationAt (doc g) ''/test'' ''get'' \<noteq> None \<and>
        dom (doc_paths (doc g)) = {''/test''}"
proof -
  let ?inner = "Layer ''router'' (Handle 6 (Some [routeLayer 7 (Single ''/b'') [handlerLayer 2 ''post'']]))
                None None"
  let ?outer = "Layer ''router'' (Handle 5 (Some [?inner])) None None"
  let ?first = "routeLayer 1 (Single ''/test'') [handlerLayer 2 ''get'']"
  let ?before = "[Visit [] ?first, Visit ''/test'' (handlerLayer 2 ''get''), Visit [] ?outer]"
  let ?after = "[Raise (RouterRegistrationError (RouterInfo ''router'' ''/v2'' 1))]"
  let ?g = "generatorOf (run exampleParse ?before mountedGenerator)"
  have it: "traversal mountedGenerator [?first, ?outer]
              = ?before @ Visit ''/v2'' ?inner # ?after"
    by (simp add: traversal_def itinerary.simps registered_def mountedGenerator_def
          registerRouter_def
          example_defs generator_defs)
  have before: "run exampleParse ?before mountedGenerator = Done ?g"
    by (simp add: mountedGenerator_def registerRouter_def example_defs generator_defs)
  have own: "getParams exampleParse ''/v2'' ?inner ?g = Done ?g"
    by (simp add: mountedGenerator_def registerRouter_def example_defs generator_defs)
  have "initializeDoc exampleParse (Some nestedRoot) mountedGenerator =
          Thrown (RouterRegistrationError (RouterInfo ''router'' ''/v2'' 1)) ?g"
    using unregistered_router_raises [of nestedRoot "[?first, ?outer]" mountedGenerator
            ?before "''/v2''" ?inner ?after exampleParse ?g
            "[routeLayer 7 (Single ''/b'') [handlerLayer 2 ''post'']]" ?g]
          it before own
    by (simp add: nestedRoot_def mountedGenerator_def registerRouter_def serverGenerator_def)
  moreover have "operationAt (doc ?g) ''/test'' ''get'' \<noteq> None"
    by (simp add: mountedGenerator_def registerRouter_def example_defs generator_defs)
  moreover have "dom (doc_paths (doc ?g)) = {''/test''}"
    by (simp add: mountedGenerator_def registerRouter_def example_defs generator_defs)
  ultimately show ?thesis by blast
qed

text \<open>
  Claim C1 as stated fails. The handle of \<open>wrappedLayer\<close> has a stack and was never
  registered, but the layer is not named \<^verbatim>\<open>router\<close>: the traversal of \<open>wrappedRoot\<close>
  passes it over and raises nothing. And for \<open>documentedRouter\<close>, an unregistered router
  with operation metadata of its own, the traversal ends in the \<^verbatim>\<open>TypeError\<close> of the
  layer's own recording step (the layer of a router has no method), not in
  \<^verbatim>\<open>RouterRegistrationError\<close>.
\<close>

theorem unregistered_router_unreported_counterexample:
  "isRouter (layer_handle wrappedLayer) \<and>
   routerMap serverGenerator (hid (layer_handle wrappedLayer)) = None \<and>
   thrownError (initializeDoc exampleParse (Some wrappedRoot) serverGenerator) = None \<and>
   layer_name documentedRouter = ''router'' \<and> isRouter (layer_handle documentedRouter) \<and>
   routerMap documentedRouterGenerator (hid (layer_handle documentedRouter)) = None \<and>
   thrownError (initializeDoc exampleParse (Some (Handle 0 (Some [documentedRouter])))
                  documentedRouterGenerator) = Some TypeError"
  by (simp add: wrappedLayer_def wrappedRoot_def documentedRouter_def
        documentedRouterGenerator_def addSchema_def example_defs generator_defs)

subsection \<open>Wildcard paths\<close>

text \<open>
  Claim C2, as amended. Let the traversal of a root reach a layer whose handle has
  registered metadata and whose method is one of the eight verbs, at an accumulated path
  whose tokens, after the base path is stripped, include a wildcard at any depth. Then
  \<^verbatim>\<open>initializeDoc\<close> raises \<^verbatim>\<open>WildcardPathError\<close> with the stripped path and the layer's name,
  and the generator is left as it was when the layer was reached: the document gets no
  entry for the route and the registry is not written.
\<close>

theorem documented_wildcard_route_raises:
  assumes "hstack root = Some st"
    and "traversal g0 st = before @ Visit path l # after"
    and "run parse before g0 = Done g"
    and "schemaMap g0 (hid (layer_handle l)) \<noteq> None"
    and "layer_method l = Some m"
    and "isHTTPMethod (toLowerCase m)"
    and "parse (stripBasePath (basePath g0) path) = Some tokens"
    and "(n, KWildcard, d) \<in> set (tokenDepths 0 tokens)"
  shows "initializeDoc parse (Some root) g0 =
           Thrown (WildcardPathError
                     (PathInfo (stripBasePath (basePath g0) path) (layer_name l))) g"
proof -
  from run_control [OF assms(3)]
  have ctl: "registered g = registered g0" "basePath g = basePath g0" by simp_all
  with assms(4) obtain schema where schema: "schemaMap g (hid (layer_handle l)) = Some schema"
    by (auto simp: registered_def fun_eq_iff)
  from assms(8) have "depthKey (n, KWildcard, d) \<in> set (parseKeys tokens)"
    by (simp add: parseKeys_depths)
  then have "find (\<lambda>k. key_type k = KWildcard) (parseKeys tokens) \<noteq> None"
    by (auto simp: find_None_iff depthKey_def)
  with schema assms(5-7) ctl
  have "getParams parse path l g =
          Thrown (WildcardPathError
                    (PathInfo (stripBasePath (basePath g0) path) (layer_name l))) g"
    by (simp add: getParams_def Let_def)
  with assms(1-3) show ?thesis
    by (simp add: initializeDoc_itinerary run_append)
qed

theorem documented_wildcard_route_raises_witness:
  "\<exists>g. initializeDoc exampleParse (Some filesRoot) serverGenerator =
          Thrown (WildcardPathError (PathInfo ''/files/*path'' ''handler'')) g \<and>
        dom (doc_paths (doc g)) = {''/test''} \<and>
        schemaMap g 2 = Some (testOperation\<lparr>op_parameters := Some []\<rparr>)"
proof -
  let ?first = "routeLayer 1 (Single ''/test'') [handlerLayer 2 ''get'']"
  let ?second = "routeLayer 3 (Single ''/files/*path'') [handlerLayer 2 ''post'']"
  let ?before = "[Visit [] ?first, Visit ''/test'' (handlerLayer 2 ''get''), Visit [] ?second]"
  let ?g = "generatorOf (run exampleParse ?before serverGenerator)"
  have it: "traversal serverGenerator [?first, ?second]
              = ?before @ Visit ''/files/*path'' (handlerLayer 2 ''post'') # []"
    by (simp add: traversal_def itinerary.simps registered_def example_defs generator_defs)
  have before: "run exampleParse ?before serverGenerator = Done ?g"
    by (simp add: example_defs generator_defs)
  have "initializeDoc exampleParse (Some filesRoot) serverGenerator =
          Thrown (WildcardPathError (PathInfo ''/files/*path'' ''handler'')) ?g"
    using documented_wildcard_route_raises [of filesRoot "[?first, ?second]" serverGenerator
            ?before "''/files/*path''" "handlerLayer 2 ''post''" "[]" exampleParse ?g "''post''"
            "[Text ''/files/'', Wildcard ''path'']" "''path''" 0]
          it before
    by (simp add: filesRoot_def example_defs generator_defs)
  moreover have "dom (doc_paths (doc ?g)) = {''/test''}"
    by (simp add: example_defs generator_defs)
  moreover have "schemaMap ?g 2 = Some (testOperation\<lparr>op_parameters := Some []\<rparr>)"
    by (simp add: example_defs generator_defs)
  ultimately show ?thesis by blast
qed

text \<open>
  Claim C2 as stated fails: a route with a wildcard whose handler carries no metadata
  is passed over without an error.
\<close>

theorem undocumented_wildcard_route_counterexample:
  "exampleParse ''/files/*path'' = Some [Text ''/files/'', Wildcard ''path''] \<and>
   initializeDoc exampleParse (Some undocumentedFilesRoot) serverGenerator = Done serverGenerator"
  by (simp add: undocumentedFilesRoot_def example_defs generator_defs)

subsection \<open>The example without servers\<close>

text \<open>
  Claim C3, as amended. When the base document declares no servers, a handler
  registered with the metadata \<^verbatim>\<open>{responses: {"200": {description: "ok"}}}\<close> and bound by
  \<^verbatim>\<open>get\<close> at the route path \<^verbatim>\<open>/users/:id\<close> is recorded under the key \<^verbatim>\<open>users/{id}\<close>,
  without a leading slash, with the single parameter
  \<^verbatim>\<open>{name: "id", in: "path", required: true, schema: {type: "string"}}\<close>; the entry of the
  key \<^verbatim>\<open>/users/{id}\<close> is left as the base document has it. (The base path defaults to
  \<^verbatim>\<open>/\<close>, and a path that starts with the base path loses it.)
\<close>

theorem users_id_key_has_no_slash:
  assumes "base_servers baseDoc = None"
    and "constructor baseDoc = Inr g0"
    and "parse ''users/:id'' = Some [Text ''users/'', Param ''id'']"
    and "d \<noteq> h"
  shows "\<exists>g. initializeDoc parse
                (Some (Handle r (Some [routeLayer d (Single ''/users/:id'')
                                         [handlerLayer h ''get'']])))
                (addSchema (Handle h None) okOperation g0) = Done g \<and>
           map_option op_parameters (operationAt (doc g) ''users/{id}'' ''get'')
             = Some (Some [ParameterObject
                  \<lparr>param_name = ''id'', param_in = ''path'', param_required = Some True,
                   param_schema = Some \<lparr>schema_type = Some ''string'', schema_format = None\<rparr>,
                   param_description = None\<rparr>]) \<and>
           doc_paths (doc g) ''/users/{id}'' = doc_paths (doc g0) ''/users/{id}''"
proof -
  from assms(1,2) have g0: "basePath g0 = ''/''" "schemaMap g0 = Map.empty"
    by (auto simp: constructor_def Let_def)
  show ?thesis
    using assms(3,4) g0
    by (simp add: addSchema_def okOperation_def routeLayer_def handlerLayer_def generator_defs)
qed

theorem users_id_key_has_no_slash_witness:
  "\<exists>g. initializeDoc exampleParse (Some usersRoot)
          (addSchema (Handle 2 None) okOperation (plainGenerator\<lparr>schemaMap := Map.empty\<rparr>))
          = Done g \<and>
        map_option op_parameters (operationAt (doc g) ''users/{id}'' ''get'')
             = Some (Some [ParameterObject
                  \<lparr>param_name = ''id'', param_in = ''path'', param_required = Some True,
                   param_schema = Some \<lparr>schema_type = Some ''string'', schema_format = None\<rparr>,
                   param_description = None\<rparr>]) \<and>
        doc_paths (doc g) ''/users/{id}'' = None"
  using users_id_key_has_no_slash [of plainDocument "plainGenerator\<lparr>schemaMap := Map.empty\<rparr>"
          exampleParse 1 2 0]
  by (simp add: constructor_plainDocument usersRoot_def)
     (simp add: plainDocument_def exampleParse_def plainGenerator_def)

text \<open>
  Claim C3 as stated fails: after the traversal the document has no entry under the
  key \<^verbatim>\<open>/users/{id}\<close>.
\<close>

theorem users_id_slash_key_counterexample:
  "(case constructor plainDocument of
      Inl e \<Rightarrow> False
    | Inr g0 \<Rightarrow>
        doc_paths
          (doc (generatorOf (initializeDoc exampleParse (Some usersRoot)
                  (addSchema (Handle 2 None) okOperation g0))))
          ''/users/{id}'' = None)"
  by (simp add: constructor_plainDocument usersRoot_def addSchema_def example_defs generator_defs)

subsection \<open>Required flags of path parameters\<close>

text \<open>
  Claim C4, as amended. The operation the recording step records lists one parameter
  per parameter token of the path, in the order of the path. For a token under whose
  name the registered metadata holds, when the layer is visited, no path parameter, it
  is \<^verbatim>\<open>{name, in: "path", required, schema: {type: "string"}}\<close> with \<^verbatim>\<open>required\<close> true exactly
  when the token lies outside every group, at any depth of nesting. For a token under
  whose name the metadata holds a path parameter, it is the first such parameter, with
  these defaults for \<^verbatim>\<open>required\<close> and \<^verbatim>\<open>schema\<close> only where that parameter has none.
\<close>

theorem required_iff_outside_groups:
  assumes "schemaMap g (hid (layer_handle layer)) = Some schema"
    and "layer_method layer = Some m"
    and "isHTTPMethod (toLowerCase m)"
    and "parse (stripBasePath (basePath g) path) = Some tokens"
    and "find (\<lambda>k. key_type k = KWildcard) (parseKeys tokens) = None"
  shows "\<exists>g'. getParams parse path layer g = Done g' \<and>
           map_option op_parameters
             (operationAt (doc g') (openAPIPath (stripBasePath (basePath g) path))
                (toLowerCase m))
           = Some (Some (map (\<lambda>e. case declaredFor schema (fst e) of
                                     None \<Rightarrow> synthesized e
                                   | Some q \<Rightarrow> merged e q)
                           (tokenDepths 0 tokens)))"
proof -
  have "map (keyParameter schema) (parseKeys tokens)
          = map (\<lambda>e. case declaredFor schema (fst e) of
                        None \<Rightarrow> synthesized e
                      | Some q \<Rightarrow> merged e q)
              (tokenDepths 0 tokens)"
    by (simp add: parseKeys_depths keyParameter_depthKey)
  moreover note getParams_records [of g layer schema m parse path tokens]
  ultimately show ?thesis
    using assms by (simp add: operationAt_setOperation)
qed

theorem required_iff_outside_groups_witness:
  "\<exists>g'. getParams exampleParse ''/:a{/:b}'' (handlerLayer 2 ''get'') declaringGenerator = Done g' \<and>
     map_option op_parameters (operationAt (doc g') ''/{a}{/{b}}'' ''get'')
       = Some (Some
           [ParameterObject
              \<lparr>param_name = ''a'', param_in = ''path'', param_required = Some True,
               param_schema = Some \<lparr>schema_type = Some ''string'', schema_format = None\<rparr>,
               param_description = Some ''The first''\<rparr>,
            ParameterObject
              \<lparr>param_name = ''b'', param_in = ''path'', param_required = Some False,
               param_schema = Some \<lparr>schema_type = Some ''string'', schema_format = None\<rparr>,
               param_description = None\<rparr>])"
  using required_iff_outside_groups [of declaringGenerator "handlerLayer 2 ''get''"
     declaringOperation "''get''" exampleParse "''/:a{/:b}''"
     "[Text ''/'', Param ''a'', Group [Text ''/'', Param ''b'']]"]
  by (simp add: declaringGenerator_def declaringOperation_def declaredFor_def
        pathParameterNamed_def merged_def synthesized_def example_defs generator_defs)

text \<open>
  Claim C4 as stated fails: in \<open>fanoutGroupRoot\<close> the token \<open>x\<close> of \<^verbatim>\<open>/b{/:x}\<close> lies in a
  group, yet the parameter recorded for it is required. The visit of \<^verbatim>\<open>/a/:x\<close> wrote
  its parameter \<open>x\<close> back into the registry, and the visit of \<^verbatim>\<open>/b{/:x}\<close> merges that
  entry over its own default.
\<close>

theorem required_in_group_counterexample:
  "tokenDepths 0 (the (exampleParse ''/b{/:x}'')) = [(''x'', KParam, 1)] \<and>
   map_option op_parameters
     (operationAt
        (doc (generatorOf (initializeDoc exampleParse (Some fanoutGroupRoot) serverGenerator)))
        ''/b{/{x}}'' ''get'')
     = Some (Some [ParameterObject
          \<lparr>param_name = ''x'', param_in = ''path'', param_required = Some True,
           param_schema = Some \<lparr>schema_type = Some ''string'', schema_format = None\<rparr>,
           param_description = None\<rparr>])"
  by (simp add: fanoutGroupRoot_def example_defs generator_defs)

subsection \<open>Routes bound to several paths\<close>

text \<open>
  Claim C5, as amended. For a layer whose route has an array of paths, the traversal
  (after the layer's own recording step and mount step) looks for the first layer of
  the route's stack whose handle has registered metadata; without one it stops, and
  with one it recurses once per path of the array, in order, with the prefix extended
  by that path, into that layer alone. When that layer is a handler layer with a
  supported method, every extended path parses without a wildcard and the paths give
  different keys, the traversal returns and the document then has, for every path of
  the array, an operation under the key of that path (the extended path without the
  base path, its markers rewritten) and the method of the layer: it has the summary,
  the description and the responses of the registered metadata and one path parameter
  per parameter token of its path, named like the token.
\<close>

theorem fanout_records_every_path:
  assumes "getParams parse path (Layer nm h m (Some (Route (Multiple ps) st))) g = Done g1"
    and "mountStep parse path (Layer nm h m (Some (Route (Multiple ps) st))) g1 = Done g2"
  shows "recurseStack parse path (Layer nm h m (Some (Route (Multiple ps) st))) g =
           (case find (\<lambda>l. schemaMap g2 (hid (layer_handle l)) \<noteq> None) st of
              None \<Rightarrow> Done g2
            | Some schemaLayer \<Rightarrow>
                forEach ps (\<lambda>p. recurseStack parse (path @ p) schemaLayer) g2) \<and>
         (\<forall>nm' h' m' schema.
            find (\<lambda>l. schemaMap g2 (hid (layer_handle l)) \<noteq> None) st
              = Some (Layer nm' h' (Some m') None) \<and>
            hstack h' = None \<and> schemaMap g2 (hid h') = Some schema \<and>
            isHTTPMethod (toLowerCase m') \<and>
            (\<forall>p \<in> set ps. parsable parse (basePath g2) (path @ p)) \<and>
            distinct (map (\<lambda>p. openAPIPath (stripBasePath (basePath g2) (path @ p))) ps) \<longrightarrow>
            (\<exists>g'. recurseStack parse path (Layer nm h m (Some (Route (Multiple ps) st))) g = Done g' \<and>
               (\<forall>p \<in> set ps. \<exists>operation tokens params.
                  parse (stripBasePath (basePath g2) (path @ p)) = Some tokens \<and>
                  operationAt (doc g') (openAPIPath (stripBasePath (basePath g2) (path @ p)))
                    (toLowerCase m') = Some operation \<and>
                  op_summary operation = op_summary schema \<and>
                  op_description operation = op_description schema \<and>
                  op_responses operation = op_responses schema \<and>
                  op_parameters operation = Some params \<and>
                  list_all2 (\<lambda>e t. pathParameterNamed (fst t) e) params (tokenDepths 0 tokens))))"
proof (intro conjI allI impI)
  show eq: "recurseStack parse path (Layer nm h m (Some (Route (Multiple ps) st))) g =
           (case find (\<lambda>l. schemaMap g2 (hid (layer_handle l)) \<noteq> None) st of
              None \<Rightarrow> Done g2
            | Some schemaLayer \<Rightarrow>
                forEach ps (\<lambda>p. recurseStack parse (path @ p) schemaLayer) g2)"
    using assms by (simp add: recurseStack_steps routeStep_def del: recurseStack.simps)
  fix nm' h' m' schema
  assume a: "find (\<lambda>l. schemaMap g2 (hid (layer_handle l)) \<noteq> None) st
              = Some (Layer nm' h' (Some m') None) \<and>
            hstack h' = None \<and> schemaMap g2 (hid h') = Some schema \<and>
            isHTTPMethod (toLowerCase m') \<and>
            (\<forall>p \<in> set ps. parsable parse (basePath g2) (path @ p)) \<and>
            distinct (map (\<lambda>p. openAPIPath (stripBasePath (basePath g2) (path @ p))) ps)"
  let ?sl = "Layer nm' h' (Some m') None"
  from a have found: "find (\<lambda>l. schemaMap g2 (hid (layer_handle l)) \<noteq> None) st = Some ?sl"
    and plain: "hstack h' = None" by simp_all
  have "recurseStack parse path (Layer nm h m (Some (Route (Multiple ps) st))) g =
      forEach ps (\<lambda>p. getParams parse (path @ p) ?sl) g2"
    unfolding eq found by (simp add: recurseStack_handler [OF plain] del: recurseStack.simps)
  moreover from a
  have "\<exists>g'. forEach ps (\<lambda>p. getParams parse (path @ p) ?sl) g2 = Done g' \<and>
           (\<forall>k. k \<notin> (\<lambda>p. openAPIPath (stripBasePath (basePath g2) (path @ p))) ` set ps \<longrightarrow>
                operationAt (doc g') k (toLowerCase m') = operationAt (doc g2) k (toLowerCase m')) \<and>
           (\<forall>p \<in> set ps. \<exists>operation tokens params.
              parse (stripBasePath (basePath g2) (path @ p)) = Some tokens \<and>
              operationAt (doc g') (openAPIPath (stripBasePath (basePath g2) (path @ p)))
                (toLowerCase m') = Some operation \<and>
              op_summary operation = op_summary schema \<and>
              op_description operation = op_description schema \<and>
              op_responses operation = op_responses schema \<and>
              op_parameters operation = Some params \<and>
              list_all2 (\<lambda>e t. pathParameterNamed (fst t) e) params (tokenDepths 0 tokens))"
    by (intro forEach_getParams_entries) simp_all
  ultimately show "\<exists>g'. recurseStack parse path (Layer nm h m (Some (Route (Multiple ps) st))) g = Done g' \<and>
               (\<forall>p \<in> set ps. \<exists>operation tokens params.
                  parse (stripBasePath (basePath g2) (path @ p)) = Some tokens \<and>
                  operationAt (doc g') (openAPIPath (stripBasePath (basePath g2) (path @ p)))
                    (toLowerCase m') = Some operation \<and>
                  op_summary operation = op_summary schema \<and>
                  op_description operation = op_description schema \<and>
                  op_responses operation = op_responses schema \<and>
                  op_parameters operation = Some params \<and>
                  list_all2 (\<lambda>e t. pathParameterNamed (fst t) e) params (tokenDepths 0 tokens))"
    by (simp del: recurseStack.simps) blast
qed

text \<open>
  The example of the claim under the base path \<^verbatim>\<open>/api/v1\<close> of the repository's tests: one
  handler bound to \<^verbatim>\<open>/a/:x\<close> and \<^verbatim>\<open>/b/:x\<close> ends up under the two keys \<^verbatim>\<open>/a/{x}\<close> and
  \<^verbatim>\<open>/b/{x}\<close>, with the same summary and description and the same parameter \<open>x\<close>.
\<close>

theorem fanout_records_every_path_witness:
  "\<exists>g. recurseStack exampleParse [] fanoutLayer serverGenerator = Done g \<and>
        operationAt (doc g) ''/a/{x}'' ''get''
          = Some (testOperation\<lparr>op_parameters := Some [xParameter]\<rparr>) \<and>
        operationAt (doc g) ''/b/{x}'' ''get''
          = Some (testOperation\<lparr>op_parameters := Some [xParameter]\<rparr>)"
proof -
  let ?fanout = "Layer ''handle'' (Handle 1 None) None
                   (Some (Route (Multiple [''/a/:x'', ''/b/:x''])
                            [handlerLayer 3 ''get'', handlerLayer 2 ''get'']))"
  have own: "getParams exampleParse [] ?fanout serverGenerator = Done serverGenerator"
    by (simp add: getParams_def serverGenerator_def)
  have mount: "mountStep exampleParse [] ?fanout serverGenerator = Done serverGenerator"
    by (simp add: mountStep_def)
  have found: "find (\<lambda>l. schemaMap serverGenerator (hid (layer_handle l)) \<noteq> None)
                 [handlerLayer 3 ''get'', handlerLayer 2 ''get'']
                 = Some (Layer ''handler'' (Handle 2 None) (Some ''get'') None)"
    by (simp add: serverGenerator_def handlerLayer_def)
  have paths: "\<forall>p \<in> set [''/a/:x'', ''/b/:x''].
                 parsable exampleParse (basePath serverGenerator) ([] @ p)"
    by (simp add: parsable_def example_defs generator_defs)
  have keys: "distinct (map (\<lambda>p. openAPIPath (stripBasePath (basePath serverGenerator) ([] @ p)))
                          [''/a/:x'', ''/b/:x''])"
    by (simp add: example_defs generator_defs)
  have "find (\<lambda>l. schemaMap serverGenerator (hid (layer_handle l)) \<noteq> None)
          [handlerLayer 3 ''get'', handlerLayer 2 ''get'']
          = Some (Layer ''handler'' (Handle 2 None) (Some ''get'') None) \<and>
        hstack (Handle 2 None) = None \<and>
        schemaMap serverGenerator (hid (Handle 2 None)) = Some testOperation \<and>
        isHTTPMethod (toLowerCase ''get'') \<and>
        (\<forall>p \<in> set [''/a/:x'', ''/b/:x''].
           parsable exampleParse (basePath serverGenerator) ([] @ p)) \<and>
        distinct (map (\<lambda>p. openAPIPath (stripBasePath (basePath serverGenerator) ([] @ p)))
                    [''/a/:x'', ''/b/:x''])"
    using found paths keys
    by (simp add: serverGenerator_def isHTTPMethod_def toLowerCase_def lower_char_def)
  from fanout_records_every_path [OF own mount, THEN conjunct2, rule_format, OF this]
  have "\<exists>g. recurseStack exampleParse [] ?fanout serverGenerator = Done g"
    by blast
  then obtain g where g: "recurseStack exampleParse [] fanoutLayer serverGenerator = Done g"
    by (auto simp: fanoutLayer_def routeLayer_def simp del: recurseStack.simps)
  have "recurseStack exampleParse [] fanoutLayer serverGenerator
          = Done (generatorOf (recurseStack exampleParse [] fanoutLayer serverGenerator))"
    using g by simp
  moreover have "operationAt
        (doc (generatorOf (recurseStack exampleParse [] fanoutLayer serverGenerator)))
        ''/a/{x}'' ''get'' = Some (testOperation\<lparr>op_parameters := Some [xParameter]\<rparr>)"
    by (simp add: fanoutLayer_def xParameter_def example_defs generator_defs)
  moreover have "operationAt
        (doc (generatorOf (recurseStack exampleParse [] fanoutLayer serverGenerator)))
        ''/b/{x}'' ''get'' = Some (testOperation\<lparr>op_parameters := Some [xParameter]\<rparr>)"
    by (simp add: fanoutLayer_def xParameter_def example_defs generator_defs)
  ultimately show ?thesis by blast
qed

text \<open>
  Claim C5 as stated fails: when the base document declares no servers, the two entries
  of the example are filed under \<^verbatim>\<open>a/{x}\<close> and \<^verbatim>\<open>b/{x}\<close>, without the leading slash, and
  the document has nothing under \<^verbatim>\<open>/a/{x}\<close> and \<^verbatim>\<open>/b/{x}\<close>.
\<close>

theorem fanout_slash_keys_counterexample:
  "operationAt (doc (generatorOf (initializeDoc exampleParse (Some fanoutRoot) plainGenerator)))
     ''a/{x}'' ''get'' = Some (okOperation\<lparr>op_parameters := Some [xParameter]\<rparr>) \<and>
   operationAt (doc (generatorOf (initializeDoc exampleParse (Some fanoutRoot) plainGenerator)))
     ''b/{x}'' ''get'' = Some (okOperation\<lparr>op_parameters := Some [xParameter]\<rparr>) \<and>
   doc_paths (doc (generatorOf (initializeDoc exampleParse (Some fanoutRoot) plainGenerator)))
     ''/a/{x}'' = None \<and>
   doc_paths (doc (generatorOf (initializeDoc exampleParse (Some fanoutRoot) plainGenerator)))
     ''/b/{x}'' = None"
  by (simp add: fanoutRoot_def fanoutLayer_def xParameter_def example_defs generator_defs)

subsection \<open>The declared server\<close>

text \<open>
  Claim C6. When the server URL \<^verbatim>\<open>/api/v1\<close> is declared at construction, the recording
  step files a path that starts with \<^verbatim>\<open>/api/v1\<close> under the key of the rest of the path:
  the operation is stored at that key and no other key of the document changes. So
  \<^verbatim>\<open>/api/v1/test\<close> is recorded under \<^verbatim>\<open>/test\<close> and not under \<^verbatim>\<open>/api/v1/test\<close> (the witness).
\<close>

theorem base_path_is_stripped:
  assumes "base_servers baseDoc = Some (''/api/v1'' # others)"
    and "constructor baseDoc = Inr g0"
    and "basePath g = basePath g0"
    and "schemaMap g (hid (layer_handle layer)) = Some schema"
    and "layer_method layer = Some m"
    and "isHTTPMethod (toLowerCase m)"
    and "parse rest = Some tokens"
    and "find (\<lambda>k. key_type k = KWildcard) (parseKeys tokens) = None"
  shows "\<exists>g'. getParams parse (''/api/v1'' @ rest) layer g = Done g' \<and>
           operationAt (doc g') (openAPIPath rest) (toLowerCase m) \<noteq> None \<and>
           (\<forall>k. k \<noteq> openAPIPath rest \<longrightarrow> doc_paths (doc g') k = doc_paths (doc g) k)"
proof -
  from assms(1-3) have base: "basePath g = ''/api/v1''"
    by (simp add: constructor_basePath)
  then have strip: "stripBasePath (basePath g) (''/api/v1'' @ rest) = rest"
    using stripBasePath_append [of "''/api/v1''" rest] by simp
  from getParams_records [of g layer schema m parse "''/api/v1'' @ rest" tokens] assms(4-8) strip
  show ?thesis
    by (simp add: operationAt_setOperation doc_paths_setOperation_other)
qed

theorem base_path_is_stripped_witness:
  "\<exists>g'. getParams exampleParse ''/api/v1/test'' (handlerLayer 2 ''get'') serverGenerator
           = Done g' \<and>
      operationAt (doc g') ''/test'' ''get'' \<noteq> None \<and>
      doc_paths (doc g') ''/api/v1/test'' = None"
proof -
  from base_path_is_stripped [of serverDocument "[]" "serverGenerator\<lparr>schemaMap := Map.empty\<rparr>"
         serverGenerator "handlerLayer 2 ''get''" testOperation "''get''" exampleParse "''/test''"
         "[Text ''/test'']"]
  obtain g' where g':
    "getParams exampleParse ''/api/v1/test'' (handlerLayer 2 ''get'') serverGenerator = Done g'"
    "operationAt (doc g') (openAPIPath ''/test'') (toLowerCase ''get'') \<noteq> None"
    "\<forall>k. k \<noteq> openAPIPath ''/test'' \<longrightarrow> doc_paths (doc g') k = doc_paths (doc serverGenerator) k"
    by (auto simp: constructor_serverDocument serverDocument_def example_defs generator_defs)
  have "openAPIPath ''/test'' = ''/test''" "toLowerCase ''get'' = ''get''"
    by (simp_all add: generator_defs)
  with g' show ?thesis
    by (auto simp: serverGenerator_def)
qed

subsection \<open>Traversing twice\<close>




subsection \<open>Rewriting the markers of a path\<close>

text \<open>
  Claim C8 does not hold of the code. The rewriting is right as long as no
  group-wrapped marker is directly followed by a word character (lemma
  \<open>openAPIPath_separated\<close>). For the path \<^verbatim>\<open>/{:id}abc\<close>, a group around the parameter \<open>id\<close>
  followed by text, the first rewrite yields \<^verbatim>\<open>/:idabc\<close> and the second \<^verbatim>\<open>/{idabc}\<close>: the
  operation is recorded under \<^verbatim>\<open>/{idabc}\<close> with the parameter \<open>id\<close>, and nothing is
  recorded under \<^verbatim>\<open>/{id}abc\<close>.
\<close>

theorem group_marker_fused_with_text:
  "operationAt
     (doc (generatorOf (getParams exampleParse ''/{:id}abc'' (handlerLayer 2 ''get'')
             serverGenerator)))
     ''/{idabc}'' ''get''
     = Some (testOperation\<lparr>op_parameters := Some [synthesized (''id'', KParam, 1)]\<rparr>) \<and>
   doc_paths
     (doc (generatorOf (getParams exampleParse ''/{:id}abc'' (handlerLayer 2 ''get'')
             serverGenerator)))
     ''/{id}abc'' = None"
  by (simp add: synthesized_def example_defs generator_defs)

subsection \<open>Which layers are sub-router mounts\<close>

text \<open>
  Claim C9, as amended. A layer is treated as a sub-router mount when it is named
  \<^verbatim>\<open>router\<close> and its handle exposes a stack of layers: once its own recording step has
  returned, the traversal raises \<^verbatim>\<open>RouterRegistrationError\<close> if the router has no mount
  path (none registered, or the empty one), and otherwise recurses into every layer
  of the stack under the path extended by the mount path before it turns to the
  layer's route. For a layer of any other name the stack of the handle is ignored.
\<close>

theorem router_named_layers_are_mounts:
  assumes "getParams parse path (Layer nm (Handle i st) m r) g = Done g1"
  shows "(nm = ''router'' \<and> st = Some layers \<and>
            (routerMap g1 i = None \<or> routerMap g1 i = Some []) \<longrightarrow>
          recurseStack parse path (Layer nm (Handle i st) m r) g =
            Thrown (RouterRegistrationError (RouterInfo ''router'' path (length layers))) g1) \<and>
         (nm = ''router'' \<and> st = Some layers \<and> routerMap g1 i = Some routerPath \<and>
            routerPath \<noteq> [] \<longrightarrow>
          recurseStack parse path (Layer nm (Handle i st) m r) g =
            (case forEach layers (\<lambda>l. recurseStack parse (path @ routerPath) l) g1 of
               Thrown e g' \<Rightarrow> Thrown e g'
             | Done g2 \<Rightarrow> routeStep parse path r g2)) \<and>
         (nm \<noteq> ''router'' \<longrightarrow>
          recurseStack parse path (Layer nm (Handle i st) m r) g =
            recurseStack parse path (Layer nm (Handle i None) m r) g)"
  using assms getParams_stack_irrelevant [of parse path nm i st m r g]
  by (auto simp: recurseStack_steps mountStep_def isRouter_def routerInfo_def
        simp del: recurseStack.simps)

theorem router_named_layers_are_mounts_witness:
  "recurseStack exampleParse [] namedMount serverGenerator =
      Thrown (RouterRegistrationError (RouterInfo ''router'' [] 1)) serverGenerator \<and>
   (\<exists>g2. recurseStack exampleParse [] namedMount
            (registerRouter (Handle 5 None) ''/api/v1'' serverGenerator) = Done g2 \<and>
          operationAt (doc g2) ''/test'' ''get'' \<noteq> None) \<and>
   recurseStack exampleParse [] unnamedMount serverGenerator =
     recurseStack exampleParse [] (Layer ''mounted'' (Handle 5 None) None None) serverGenerator"
proof -
  let ?st = "[routeLayer 1 (Single ''/test'') [handlerLayer 2 ''get'']]"
  have a: "getParams exampleParse [] (Layer ''router'' (Handle 5 (Some ?st)) None None)
             serverGenerator = Done serverGenerator"
    by (simp add: getParams_def serverGenerator_def)
  have b: "getParams exampleParse [] (Layer ''router'' (Handle 5 (Some ?st)) None None)
             (registerRouter (Handle 5 None) ''/api/v1'' serverGenerator)
             = Done (registerRouter (Handle 5 None) ''/api/v1'' serverGenerator)"
    by (simp add: getParams_def serverGenerator_def registerRouter_def)
  have c: "getParams exampleParse [] (Layer ''mounted'' (Handle 5 (Some ?st)) None None)
             serverGenerator = Done serverGenerator"
    by (simp add: getParams_def serverGenerator_def)
  from router_named_layers_are_mounts [OF a, of ?st]
  have 1: "recurseStack exampleParse [] namedMount serverGenerator =
      Thrown (RouterRegistrationError (RouterInfo ''router'' [] 1)) serverGenerator"
    by (simp add: namedMount_def serverGenerator_def)
  from router_named_layers_are_mounts [OF b, of ?st "''/api/v1''"]
  have 2: "\<exists>g2. recurseStack exampleParse [] namedMount
                  (registerRouter (Handle 5 None) ''/api/v1'' serverGenerator) = Done g2 \<and>
                operationAt (doc g2) ''/test'' ''get'' \<noteq> None"
    by (simp add: namedMount_def registerRouter_def routeStep_def example_defs generator_defs)
  from router_named_layers_are_mounts [OF c]
  have 3: "recurseStack exampleParse [] unnamedMount serverGenerator =
     recurseStack exampleParse [] (Layer ''mounted'' (Handle 5 None) None None) serverGenerator"
    by (simp add: unnamedMount_def)
  from 1 2 3 show ?thesis by simp
qed

text \<open>
  Claim C9 as stated fails: the handle of \<open>unnamedMount\<close> exposes a stack, the router
  is not registered, and the traversal neither raises nor records the route below it.
\<close>

theorem unnamed_router_counterexample:
  "isRouter (layer_handle unnamedMount) \<and>
   initializeDoc exampleParse (Some (Handle 0 (Some [unnamedMount]))) serverGenerator
     = Done serverGenerator"
  by (simp add: unnamedMount_def example_defs generator_defs)

subsection \<open>Unsupported methods\<close>

text \<open>
  Claim C10. A layer whose handle has registered operation metadata but whose method,
  lowercased, is none of \<^verbatim>\<open>get\<close>, \<^verbatim>\<open>post\<close>, \<^verbatim>\<open>put\<close>, \<^verbatim>\<open>patch\<close>, \<^verbatim>\<open>delete\<close>, \<^verbatim>\<open>options\<close>,
  \<^verbatim>\<open>head\<close>, \<^verbatim>\<open>trace\<close> is skipped by the recording step \<^verbatim>\<open>getParams\<close>: no error is
  raised, and the document and the handler registry stay as they are.
\<close>

theorem unsupported_method_is_skipped:
  assumes "schemaMap g (hid (layer_handle layer)) = Some schema"
    and "layer_method layer = Some m"
    and "toLowerCase m \<notin> set [''get'', ''post'', ''put'', ''patch'', ''delete'', ''options'',
                                 ''head'', ''trace'']"
  shows "getParams parse path layer g = Done g"
  using assms by (simp add: getParams_def isHTTPMethod_def)

theorem unsupported_method_is_skipped_witness:
  "getParams exampleParse ''/test'' (handlerLayer 2 ''CONNECT'') serverGenerator
     = Done serverGenerator"
  by (rule unsupported_method_is_skipped [where schema = testOperation and m = "''CONNECT''"])
     (simp_all add: example_defs toLowerCase_def lower_char_def)

end
